theory Spec2Isabelle
  imports Main
begin

section \<open>JavaScript values used by the bundler configuration\<close>

text \<open>
  Optional manifest and option fields are \<open>string option\<close>: \<open>None\<close> is
  \<open>undefined\<close>. A string is truthy when it is present and not empty, and
  \<open>a || b\<close> yields the first truthy operand.
\<close>

definition truthy :: "string option \<Rightarrow> bool" where
  "truthy v = (case v of None \<Rightarrow> False | Some s \<Rightarrow> s \<noteq> [])"

definition or_else :: "string option \<Rightarrow> string option \<Rightarrow> string option" where
  "or_else a b = (if truthy a then a else b)"

definition or_default :: "string option \<Rightarrow> string \<Rightarrow> string" where
  "or_default a d = (case a of None \<Rightarrow> d | Some s \<Rightarrow> if s = [] then d else s)"

text \<open>\<open>a > b\<close> on strings: lexicographic on character codes.\<close>

fun str_gt :: "string \<Rightarrow> string \<Rightarrow> bool" where
  "str_gt [] b = False"
| "str_gt (x # xs) [] = True"
| "str_gt (x # xs) (y # ys) =
     (if (of_char x :: nat) > of_char y then True
      else if (of_char x :: nat) < of_char y then False
      else str_gt xs ys)"

text \<open>\<open>String.prototype.split\<close> with a one-character separator, and \<open>Array.prototype.join\<close>.\<close>

fun split_on :: "char \<Rightarrow> string \<Rightarrow> string list" where
  "split_on c [] = [[]]"
| "split_on c (x # xs) =
     (if x = c then [] # split_on c xs
      else (case split_on c xs of w # ws \<Rightarrow> (x # w) # ws | [] \<Rightarrow> [[x]]))"

fun join :: "string \<Rightarrow> string list \<Rightarrow> string" where
  "join sep [] = []"
| "join sep [x] = x"
| "join sep (x # y # r) = x @ sep @ join sep (y # r)"

subsection \<open>Objects\<close>

text \<open>
  The own properties of an object, in the order in which they were created: assigning to
  a key that the object has keeps the key's place.
\<close>

fun assign :: "'k \<Rightarrow> 'v \<Rightarrow> ('k \<times> 'v) list \<Rightarrow> ('k \<times> 'v) list" where
  "assign k v [] = [(k, v)]"
| "assign k v ((k', v') # kvs) = (if k = k' then (k', v) # kvs else (k', v') # assign k v kvs)"

definition object_assign :: "('k \<times> 'v) list \<Rightarrow> ('k \<times> 'v) list \<Rightarrow> ('k \<times> 'v) list" where
  "object_assign target src = fold (\<lambda>(k, v) acc. assign k v acc) src target"

text \<open>
  An object written as \<open>{}\<close> inherits from \<open>Object.prototype\<close>. Reading \<open>obj[k]\<close> yields
  the object's own property \<open>k\<close>; without one it yields the member of \<open>Object.prototype\<close>
  of that name (a function, or the prototype object itself for \<open>__proto__\<close>), and
  \<open>undefined\<close> when there is none. The inherited members are all truthy, and none is a
  string.
\<close>

datatype 'a property = Undefined | Inherited string | Own 'a

definition prototype_keys :: "string list" where
  "prototype_keys =
     [''constructor'', ''__defineGetter__'', ''__defineSetter__'', ''hasOwnProperty'',
      ''__lookupGetter__'', ''__lookupSetter__'', ''isPrototypeOf'', ''propertyIsEnumerable'',
      ''toString'', ''valueOf'', ''__proto__'', ''toLocaleString'']"

definition get_property :: "(string \<times> 'a) list \<Rightarrow> string \<Rightarrow> 'a property" where
  "get_property obj k =
     (case map_of obj k of
        Some v \<Rightarrow> Own v
      | None \<Rightarrow> if k \<in> set prototype_keys then Inherited k else Undefined)"

text \<open>
  \<open>obj[k] = v\<close> with a string \<open>v\<close>: the key \<open>__proto__\<close> is an accessor of
  \<open>Object.prototype\<close>, and its setter ignores a value that is not an object, so that the
  assignment leaves the object as it was. Every other key becomes an own property.
\<close>

definition set_property :: "string \<Rightarrow> 'a \<Rightarrow> (string \<times> 'a) list \<Rightarrow> (string \<times> 'a) list" where
  "set_property k v obj = (if k = ''__proto__'' then obj else assign k v obj)"

subsection \<open>Regular expressions\<close>

text \<open>
  A regular expression is modelled by its syntax tree. \<open>ends r s i\<close> lists the end
  positions of the matches of \<open>r\<close> in \<open>s\<close> that start at position \<open>i\<close>, in the order
  in which a backtracking matcher tries them: the left alternative first, the longest
  repetition first. A repetition never iterates on an empty match.
\<close>

datatype rexp =
    Chr char
  | OneOf "(char \<times> char) list"
  | NoneOf "(char \<times> char) list"
  | Bol
  | Eol
  | Eps
  | Seq rexp rexp
  | Alt rexp rexp
  | Star rexp

definition in_ranges :: "char \<Rightarrow> (char \<times> char) list \<Rightarrow> bool" where
  "in_ranges c rs =
     list_ex (\<lambda>(lo, hi). (of_char lo :: nat) \<le> of_char c \<and> (of_char c :: nat) \<le> of_char hi) rs"

primrec star_ends :: "nat \<Rightarrow> (nat \<Rightarrow> nat list) \<Rightarrow> nat \<Rightarrow> nat list" where
  "star_ends 0 f i = [i]"
| "star_ends (Suc n) f i =
     concat (map (\<lambda>j. if i < j then star_ends n f j else []) (f i)) @ [i]"

primrec ends :: "rexp \<Rightarrow> string \<Rightarrow> nat \<Rightarrow> nat list" where
  "ends (Chr c) s i = (if i < length s \<and> s ! i = c then [Suc i] else [])"
| "ends (OneOf rs) s i = (if i < length s \<and> in_ranges (s ! i) rs then [Suc i] else [])"
| "ends (NoneOf rs) s i = (if i < length s \<and> \<not> in_ranges (s ! i) rs then [Suc i] else [])"
| "ends Bol s i = (if i = 0 then [i] else [])"
| "ends Eol s i = (if i = length s then [i] else [])"
| "ends Eps s i = [i]"
| "ends (Seq a b) s i = concat (map (ends b s) (ends a s i))"
| "ends (Alt a b) s i = ends a s i @ ends b s i"
| "ends (Star a) s i = star_ends (length s - i) (ends a s) i"

text \<open>The first match: the leftmost start position that has a match, with its preferred end.\<close>

primrec scan :: "nat \<Rightarrow> rexp \<Rightarrow> string \<Rightarrow> nat \<Rightarrow> (nat \<times> nat) option" where
  "scan 0 r s i = None"
| "scan (Suc n) r s i =
     (case ends r s i of [] \<Rightarrow> scan n r s (Suc i) | e # _ \<Rightarrow> Some (i, e))"

definition re_exec :: "rexp \<Rightarrow> string \<Rightarrow> (nat \<times> nat) option" where
  "re_exec r s = scan (Suc (length s)) r s 0"

definition re_test :: "rexp \<Rightarrow> string \<Rightarrow> bool" where
  "re_test r s = (re_exec r s \<noteq> None)"

text \<open>\<open>s.replace(r, f)\<close> for a pattern without the global flag: only the first match is replaced.\<close>

definition re_replace :: "rexp \<Rightarrow> string \<Rightarrow> (string \<Rightarrow> string) \<Rightarrow> string" where
  "re_replace r s f =
     (case re_exec r s of
        None \<Rightarrow> s
      | Some (i, e) \<Rightarrow> take i s @ f (take (e - i) (drop i s)) @ drop e s)"

definition Lit :: "string \<Rightarrow> rexp" where
  "Lit s = foldr (\<lambda>c r. Seq (Chr c) r) s Eps"

definition Opt :: "rexp \<Rightarrow> rexp" where
  "Opt r = Alt r Eps"

definition Plus :: "rexp \<Rightarrow> rexp" where
  "Plus r = Seq r (Star r)"

fun seqs :: "rexp list \<Rightarrow> rexp" where
  "seqs [] = Eps"
| "seqs [r] = r"
| "seqs (r # rs) = Seq r (seqs rs)"

fun alts :: "rexp list \<Rightarrow> rexp" where
  "alts [] = Eps"
| "alts [r] = r"
| "alts (r # rs) = Alt r (alts rs)"

section \<open>Node's POSIX \<open>path\<close> module\<close>

text \<open>
  \<open>normalizeString\<close> works on the segments between slashes: empty segments and \<open>.\<close> are
  dropped, \<open>..\<close> removes the segment before it (or is kept, when the path is relative and
  there is nothing to remove).
\<close>

fun normalizeString :: "bool \<Rightarrow> string list \<Rightarrow> string list \<Rightarrow> string list" where
  "normalizeString allowAboveRoot res [] = res"
| "normalizeString allowAboveRoot res (seg # segs) =
     (if seg = [] \<or> seg = ''.'' then normalizeString allowAboveRoot res segs
      else if seg = ''..'' then
        (if res \<noteq> [] \<and> last res \<noteq> ''..'' then normalizeString allowAboveRoot (butlast res) segs
         else if allowAboveRoot then normalizeString allowAboveRoot (res @ [''..'']) segs
         else normalizeString allowAboveRoot res segs)
      else normalizeString allowAboveRoot (res @ [seg]) segs)"

text \<open>
  \<open>path.resolve\<close> reads its arguments from the last to the first, and then the process's
  working directory, until the path is absolute. The arguments are given last first.
\<close>

fun resolve_loop :: "string list \<Rightarrow> string \<Rightarrow> string \<times> bool" where
  "resolve_loop [] resolvedPath = (resolvedPath, False)"
| "resolve_loop (p # ps) resolvedPath =
     (if p = [] then resolve_loop ps resolvedPath
      else if hd p = CHR ''/'' then (p @ ''/'' @ resolvedPath, True)
      else resolve_loop ps (p @ ''/'' @ resolvedPath))"

definition resolve :: "string \<Rightarrow> string list \<Rightarrow> string" where
  "resolve pcwd paths =
     (case resolve_loop (rev paths @ [pcwd]) [] of
        (resolvedPath, resolvedAbsolute) \<Rightarrow>
          (let norm = join ''/'' (normalizeString (\<not> resolvedAbsolute) []
                         (split_on CHR ''/'' resolvedPath))
           in if resolvedAbsolute then CHR ''/'' # norm
              else if norm \<noteq> [] then norm else ''.''))"

text \<open>
  \<open>path.dirname\<close>: the scan runs from the end down to index 1, skips trailing slashes and
  the last segment, and cuts at the slash before it.
\<close>

definition dirname :: "string \<Rightarrow> string" where
  "dirname p =
     (if p = [] then ''.''
      else
        (let hasRoot = (hd p = CHR ''/'');
             b = dropWhile (\<lambda>c. c \<noteq> CHR ''/'')
                   (dropWhile (\<lambda>c. c = CHR ''/'') (rev (tl p)));
             end = length b
         in if b = [] then (if hasRoot then ''/'' else ''.'')
            else if hasRoot \<and> end = 1 then ''//''
            else take end p))"

text \<open>\<open>path.basename\<close> without a suffix argument: the last segment, trailing slashes ignored.\<close>

definition basename :: "string \<Rightarrow> string" where
  "basename p =
     rev (takeWhile (\<lambda>c. c \<noteq> CHR ''/'') (dropWhile (\<lambda>c. c = CHR ''/'') (rev p)))"

section \<open>Data model\<close>

text \<open>
  JSON values, as \<open>JSON.parse\<close> returns them (only whether a number is zero matters
  here, so numbers are integers).
\<close>

datatype json =
    JNull
  | JBool bool
  | JNum int
  | JStr string
  | JArr "json list"
  | JObj "(string \<times> json) list"

fun json_truthy :: "json \<Rightarrow> bool" where
  "json_truthy JNull = False"
| "json_truthy (JBool b) = b"
| "json_truthy (JNum n) = (n \<noteq> 0)"
| "json_truthy (JStr s) = (s \<noteq> [])"
| "json_truthy (JArr xs) = True"
| "json_truthy (JObj kvs) = True"

text \<open>The manifest's \<open>source\<close> field is one file or an array of files.\<close>

datatype source = One string | Many "string list"

text \<open>
  The fields of \<open>package.json\<close> that the configuration reads. \<open>pkg_syntax_esmodules\<close>
  is \<open>pkg.syntax && pkg.syntax.esmodules\<close>; the dependency fields hold their keys.
\<close>

record manifest =
  pkg_name :: "string option"
  pkg_amdName :: "string option"
  pkg_main :: "string option"
  pkg_module :: "string option"
  pkg_jsnext_main :: "string option"
  pkg_cjs_main :: "string option"
  pkg_umd_main :: "string option"
  pkg_esmodule :: "string option"
  pkg_syntax_esmodules :: "string option"
  pkg_types :: "string option"
  pkg_typings :: "string option"
  pkg_source :: "source option"
  pkg_peerDependencies :: "string list"
  pkg_dependencies :: "string list"
  pkg_minify :: "json option"
  pkg_mangle :: "json option"

text \<open>
  The options as the caller gives them, and the option bag after \<open>microbundle\<close> has
  resolved it. \<open>pkg_main\<close> is \<open>options['pkg-main']\<close>; \<open>entries\<close> is empty when the
  caller gave none.
\<close>

record input_options =
  in_cwd :: string
  in_name :: "string option"
  in_entries :: "string list"
  in_output :: "string option"
  in_format :: "string option"
  in_formats :: "string option"
  in_watch :: bool
  in_pkg_main :: bool
  in_alias :: "string option"
  in_external :: "string option"
  in_globals :: "string option"
  in_sourcemap :: "bool option"
  in_strict :: bool
  in_compress :: bool
  in_raw :: bool

record options =
  opt_cwd :: string
  opt_pkg :: manifest
  opt_name :: string
  opt_entries :: "string list"
  opt_input :: "string list"
  opt_output :: string
  opt_multipleEntries :: bool
  opt_format :: "string option"
  opt_formats :: "string option"
  opt_watch :: bool
  opt_pkg_main :: bool
  opt_alias :: "string option"
  opt_external :: "string option"
  opt_globals :: "string option"
  opt_sourcemap :: bool
  opt_strict :: bool
  opt_compress :: bool
  opt_raw :: bool

text \<open>
  An external specifier is a string or a \<open>RegExp\<close> object; a \<open>RegExp\<close> object is its
  source text together with the pattern that the text denotes.
\<close>

datatype ext = Str string | Re string rexp

text \<open>
  What is thrown, or what a promise is rejected with: a \<open>TypeError\<close>, the \<open>SyntaxError\<close>
  of \<open>JSON.parse\<close>, the error of reading a file that is not there, and an error of the
  bundling engine or of the size measurement.
\<close>

datatype error = TypeError | SyntaxError | FileError | EngineError

text \<open>
  The shebang cache is an object with string values. The input options and the output
  options that are handed to the bundling engine: of the plugins only the hook that
  fills the shebang cache is kept; \<open>oc_banner\<close> is the getter \<open>banner\<close>, which reads the
  cache when the engine asks for the banner.
\<close>

type_synonym shebang_cache = "(string \<times> string) list"

record input_config =
  ic_input :: "(string \<times> string) list"
  ic_external :: "string \<Rightarrow> bool"
  ic_transform :: "string \<Rightarrow> shebang_cache \<Rightarrow> string \<times> shebang_cache"

record output_config =
  oc_paths :: "(string \<times> string) list"
  oc_globals :: "(string \<times> string) list option"
  oc_strict :: bool
  oc_sourcemap :: bool
  oc_banner :: "shebang_cache \<Rightarrow> string property"
  oc_format :: string
  oc_name :: string
  oc_dir :: string
  oc_entryFileNames :: string

text \<open>
  A bundle is its method \<open>write\<close>: the promise it returns is rejected, or resolved with
  the chunks and assets that were written, each with its code (assets have none) and its
  file name.
\<close>

type_synonym rollup_bundle = "output_config \<Rightarrow> error + (string option \<times> string) list"

text \<open>
  What the configuration reads from outside: the process's working directory, the file
  system (\<open>isFile\<close>, \<open>isDir\<close>, glob expansion, the name-cache file), the helpers of
  \<open>./utils\<close> and \<open>./lib\<close>, and the bundling engine (\<open>rollup\<close>, whose promise is
  rejected or resolved with a bundle), which are parameters here.
\<close>

datatype file_content = Missing | Malformed | Parsed json

record env =
  process_cwd :: string
  isFile :: "string \<Rightarrow> bool"
  isDir :: "string \<Rightarrow> bool"
  glob :: "string \<Rightarrow> string list"
  readJson :: "string \<Rightarrow> file_content"
  removeScope :: "string \<Rightarrow> string"
  getConfigFromPkgJson :: "string \<Rightarrow> bool \<times> manifest"
  getName :: "string option \<Rightarrow> string option \<Rightarrow> string option \<Rightarrow> bool \<Rightarrow> string
                \<Rightarrow> string \<times> string"
  parseAliasArgument :: "string \<Rightarrow> (string \<times> string) list"
  parseExternals :: "string option \<Rightarrow> string list \<Rightarrow> string list \<Rightarrow> ext list"
  parseMappingArgument :: "string \<Rightarrow> (string \<times> string) list"
  normalizeMinifyOptions :: "json \<Rightarrow> json"
  rollup :: "input_config \<Rightarrow> error + rollup_bundle"
  getSizeInfo :: "string \<Rightarrow> string \<Rightarrow> bool \<Rightarrow> error + string"

section \<open>Entry resolution\<close>

definition jsOrTs :: "env \<Rightarrow> string \<Rightarrow> string \<Rightarrow> string" where
  "jsOrTs e cwd filename =
     (let extension =
        (if isFile e (resolve (process_cwd e) [cwd, filename @ ''.ts'']) then ''.ts''
         else if isFile e (resolve (process_cwd e) [cwd, filename @ ''.tsx'']) then ''.tsx''
         else ''.js'')
      in resolve (process_cwd e) [cwd, filename @ extension])"

text \<open>The glob library returns no file for an absent or empty pattern.\<close>

definition glob_of :: "env \<Rightarrow> string option \<Rightarrow> string list" where
  "glob_of e file = (if truthy file then glob e (the file) else [])"

text \<open>
  The manifest's \<open>source\<close> as a condition (an array is truthy even when it is empty, a
  string only when it is not empty), and \<open>Array.isArray(source) ? source : [source]\<close>.
\<close>

definition source_truthy :: "source option \<Rightarrow> bool" where
  "source_truthy source =
     (case source of None \<Rightarrow> False | Some (One file) \<Rightarrow> file \<noteq> [] | Some (Many files) \<Rightarrow> True)"

definition source_files :: "source option \<Rightarrow> string list" where
  "source_files source =
     (case source of None \<Rightarrow> [] | Some (One file) \<Rightarrow> [file] | Some (Many files) \<Rightarrow> files)"

text \<open>
  \<open>getInput\<close>: \<open>entries\<close> is the empty list when the caller gave none. The chain of
  \<open>||\<close> yields its first truthy operand, or else its last one.
\<close>

definition getInput :: "env \<Rightarrow> string list \<Rightarrow> string \<Rightarrow> source option \<Rightarrow> string option
                          \<Rightarrow> string list" where
  "getInput e entries cwd source module =
     (let candidates =
        (if entries \<noteq> [] then map Some entries
         else if source_truthy source
         then map (\<lambda>file. Some (resolve (process_cwd e) [cwd, file])) (source_files source)
         else [or_else
                 (if isDir e (resolve (process_cwd e) [cwd, ''src''])
                  then Some (jsOrTs e cwd ''src/index'') else None)
                 (or_else (Some (jsOrTs e cwd ''index'')) module)])
      in concat (map (glob_of e) candidates))"

text \<open>\<open>arr.filter((item, i, arr) => arr.indexOf(item) === i)\<close>: the first occurrence stays.\<close>

fun unique :: "'a list \<Rightarrow> 'a list \<Rightarrow> 'a list" where
  "unique seen [] = []"
| "unique seen (x # xs) = (if x \<in> set seen then unique seen xs else x # unique (x # seen) xs)"

definition getEntries :: "env \<Rightarrow> string list \<Rightarrow> string \<Rightarrow> string list" where
  "getEntries e input cwd =
     unique []
       (map (\<lambda>file.
               (let file = resolve (process_cwd e) [cwd, file]
                in if isDir e file then resolve (process_cwd e) [file, ''index.js''] else file))
            input)"

section \<open>Output path planning\<close>

definition lower :: "(char \<times> char) list" where
  "lower = [(CHR ''a'', CHR ''z'')]"

definition only :: "char \<Rightarrow> (char \<times> char)" where
  "only c = (c, c)"

text \<open>\<open>/\.[a-z]+$/\<close>\<close>

definition re_extension :: rexp where
  "re_extension = seqs [Chr CHR ''.'', Plus (OneOf lower), Eol]"

definition getOutput :: "env \<Rightarrow> string \<Rightarrow> string option \<Rightarrow> string option \<Rightarrow> string \<Rightarrow> string" where
  "getOutput e cwd output pkgMain pkgName =
     (let main = resolve (process_cwd e) [cwd, or_default (or_else output pkgMain) ''dist'']
      in if \<not> re_test re_extension main \<or> isDir e main
         then resolve (process_cwd e) [main, removeScope e pkgName @ ''.js'']
         else main)"

text \<open>\<open>/^[^.]+/\<close>\<close>

definition re_leading_name :: rexp where
  "re_leading_name = seqs [Bol, Plus (NoneOf [only CHR ''.''])]"

text \<open>
  \<open>basename(filename).replace(/^[^.]+/, '')\<close>: the base name of a file-name template from
  its first dot on (all of it, when it begins with a dot).
\<close>

definition suffix_of :: "string \<Rightarrow> string" where
  "suffix_of filename = re_replace re_leading_name (basename filename) (\<lambda>_. [])"

definition replaceName :: "string \<Rightarrow> string \<Rightarrow> string \<Rightarrow> string" where
  "replaceName pcwd filename name = resolve pcwd [dirname filename, name @ suffix_of filename]"

text \<open>\<open>(\.(umd|cjs|es|m))?\.(mjs|[tj]sx?)$\<close>, the tail of both patterns of \<open>getMain\<close>.\<close>

definition re_format_extension :: rexp where
  "re_format_extension =
     seqs [Opt (seqs [Chr CHR ''.'', alts [Lit ''umd'', Lit ''cjs'', Lit ''es'', Lit ''m'']]),
           Chr CHR ''.'',
           alts [Lit ''mjs'',
                 seqs [OneOf [only CHR ''t'', only CHR ''j''], Chr CHR ''s'', Opt (Chr CHR ''x'')]],
           Eol]"

text \<open>\<open>/([\\/])index(\.(umd|cjs|es|m))?\.(mjs|[tj]sx?)$/\<close>\<close>

definition re_index_entry :: rexp where
  "re_index_entry =
     seqs [OneOf [only (CHR 0x5C), only CHR ''/''], Lit ''index'', re_format_extension]"

text \<open>\<open>/src\//\<close>\<close>

definition re_src :: rexp where
  "re_src = Lit ''src/''"

definition mainNoExtension :: "string \<Rightarrow> options \<Rightarrow> string \<Rightarrow> string" where
  "mainNoExtension pcwd options entry =
     (let name = (if re_test re_index_entry entry then opt_output options else entry)
      in re_replace re_format_extension
           (resolve pcwd [dirname (opt_output options), basename name]) (\<lambda>_. []))"

text \<open>
  The file-name template of each of the four formats \<open>es\<close>, \<open>modern\<close>, \<open>cjs\<close> and
  \<open>umd\<close>: the first argument of \<open>replaceName\<close> in the assignment to that key of
  \<open>mainsByFormat\<close> (lines 270 to 284).
\<close>

definition template :: "manifest \<Rightarrow> string \<Rightarrow> string" where
  "template pkg format =
     (if format = ''es''
      then (if truthy (pkg_module pkg) \<and> \<not> re_test re_src (the (pkg_module pkg))
            then the (pkg_module pkg)
            else or_default (pkg_jsnext_main pkg) ''x.esm.js'')
      else if format = ''modern''
      then or_default (or_else (pkg_syntax_esmodules pkg) (pkg_esmodule pkg)) ''x.modern.js''
      else if format = ''cjs'' then or_default (pkg_cjs_main pkg) ''x.js''
      else or_default (pkg_umd_main pkg) ''x.umd.js'')"

text \<open>
  \<open>getMain\<close>. Without \<open>pkg-main\<close> every format gets \<open>options.output\<close>. Otherwise the
  result is \<open>mainsByFormat[format] || mainsByFormat.cjs\<close>: the path of the format when it
  is one of the four keys, the member of \<open>Object.prototype\<close> when the format names one
  (which is not a path), and the \<open>cjs\<close> path for every other format.
\<close>

definition getMain :: "string \<Rightarrow> options \<Rightarrow> string \<Rightarrow> string \<Rightarrow> string property" where
  "getMain pcwd options entry format =
     (let pkg = opt_pkg options in
      if \<not> opt_pkg_main options
      then Own (opt_output options)
      else
        (let main = mainNoExtension pcwd options entry;
             mainsByFormat =
               [(''es'', replaceName pcwd (template pkg ''es'') main),
                (''modern'', replaceName pcwd (template pkg ''modern'') main),
                (''cjs'', replaceName pcwd (template pkg ''cjs'') main),
                (''umd'', replaceName pcwd (template pkg ''umd'') main)]
         in case get_property mainsByFormat format of
              Own path \<Rightarrow>
                if path \<noteq> [] then Own path else get_property mainsByFormat ''cjs''
            | Inherited k \<Rightarrow> Inherited k
            | Undefined \<Rightarrow> get_property mainsByFormat ''cjs''))"

section \<open>External classification\<close>

text \<open>
  \<open>escapeStringExternals\<close>: a \<open>RegExp\<close> contributes its own pattern, a string the
  pattern that matches exactly its text (which is what escaping it yields).
\<close>

definition escapeStringExternals :: "ext \<Rightarrow> rexp" where
  "escapeStringExternals x = (case x of Re source r \<Rightarrow> r | Str s \<Rightarrow> Lit s)"

text \<open>\<open>^(e1|e2|...)($|/)\<close>\<close>

definition externalPredicate :: "ext list \<Rightarrow> rexp" where
  "externalPredicate external =
     seqs [Bol, alts (map escapeStringExternals external), alts [Eol, Chr CHR ''/'']]"

definition externalTest :: "ext list \<Rightarrow> string \<Rightarrow> bool" where
  "externalTest external moduleId =
     (if external = [] then False else re_test (externalPredicate external) moduleId)"

definition builtins :: "ext list" where
  "builtins = [Str ''dns'', Str ''fs'', Str ''path'', Str ''url'']"

definition aliasIds :: "env \<Rightarrow> options \<Rightarrow> string list" where
  "aliasIds e options =
     map fst (if truthy (opt_alias options)
              then parseAliasArgument e (the (opt_alias options)) else [])"

text \<open>The \<open>external\<close> function of both configurations, over its list of specifiers.\<close>

definition is_external :: "env \<Rightarrow> options \<Rightarrow> ext list \<Rightarrow> string \<Rightarrow> bool" where
  "is_external e options external moduleId =
     (if moduleId = ''babel-plugin-transform-async-to-promises/helpers'' then False
      else if opt_multipleEntries options \<and> moduleId = ''.'' then True
      else if moduleId \<in> set (aliasIds e options) then False
      else externalTest external moduleId)"

subsection \<open>Global names\<close>

definition toUpperCase :: "string \<Rightarrow> string" where
  "toUpperCase s =
     map (\<lambda>c. case map_of (zip ''abcdefghijklmnopqrstuvwxyz'' ''ABCDEFGHIJKLMNOPQRSTUVWXYZ'') c of
                 None \<Rightarrow> c | Some u \<Rightarrow> u) s"

definition word_char :: "(char \<times> char) list" where
  "word_char = [(CHR ''A'', CHR ''Z''), (CHR ''a'', CHR ''z''), (CHR ''0'', CHR ''9''), only CHR ''_'']"

text \<open>
  The matches of \<open>r(\w|$)\<close> from position \<open>i\<close>: each end position together with the text
  of the group.
\<close>

definition ends_word :: "rexp \<Rightarrow> string \<Rightarrow> nat \<Rightarrow> (nat \<times> string) list" where
  "ends_word r s i =
     concat (map (\<lambda>e. (if e < length s \<and> in_ranges (s ! e) word_char then [(Suc e, [s ! e])] else [])
                       @ (if e = length s then [(e, [])] else []))
                 (ends r s i))"

text \<open>
  \<open>s.replace(/r(\w|$)/g, f)\<close>, where \<open>r\<close> matches no empty text: the matches are replaced
  from left to right, each search starting where the last match ended; \<open>f\<close> gets the
  match and the group.
\<close>

primrec replace_all_word :: "nat \<Rightarrow> rexp \<Rightarrow> (string \<Rightarrow> string \<Rightarrow> string) \<Rightarrow> string \<Rightarrow> nat \<Rightarrow> string" where
  "replace_all_word 0 r f s i = drop i s"
| "replace_all_word (Suc n) r f s i =
     (case ends_word r s i of
        (e, p1) # _ \<Rightarrow> f (take (e - i) (drop i s)) p1 @ replace_all_word n r f s e
      | [] \<Rightarrow> (if i < length s then s ! i # replace_all_word n r f s (Suc i) else []))"

definition separators :: "(char \<times> char) list" where
  "separators = [only CHR ''_'', only CHR ''.'', only CHR ''-'', only CHR '' '']"

text \<open>
  The \<open>camelcase\<close> package on a name that has no upper-case letter and no white space
  around it (the names given to it below are such): the steps that only act on those are
  left out. The steps are \<open>replace(/^[_.\- ]+/, '')\<close>,
  \<open>replace(/[_.\- ]+(\w|$)/g, (_, p1) => p1.toUpperCase())\<close> and
  \<open>replace(/\d+(\w|$)/g, m => m.toUpperCase())\<close>.
\<close>

definition camelCase :: "string \<Rightarrow> string" where
  "camelCase input =
     (if length input \<le> 1 then input
      else
        (let a = re_replace (seqs [Bol, Plus (OneOf separators)]) input (\<lambda>_. []);
             b = replace_all_word (Suc (length a)) (Plus (OneOf separators))
                   (\<lambda>m p1. toUpperCase p1) a 0;
             c = replace_all_word (Suc (length b)) (Plus (OneOf [(CHR ''0'', CHR ''9'')]))
                   (\<lambda>m p1. toUpperCase m) b 0
         in c))"

text \<open>\<open>/^[a-z_$][a-z0-9_\-$]*$/\<close>\<close>

definition re_identifier :: rexp where
  "re_identifier =
     seqs [Bol,
           OneOf [(CHR ''a'', CHR ''z''), only CHR ''_'', only CHR ''$''],
           Star (OneOf [(CHR ''a'', CHR ''z''), (CHR ''0'', CHR ''9''), only CHR ''_'',
                        only CHR ''-'', only CHR ''$'']),
           Eol]"

text \<open>\<open>if (name instanceof RegExp) name = name.source\<close>\<close>

definition ext_name :: "ext \<Rightarrow> string" where
  "ext_name x = (case x of Re source r \<Rightarrow> source | Str s \<Rightarrow> s)"

definition derive_global :: "ext \<Rightarrow> (string \<times> string) list \<Rightarrow> (string \<times> string) list" where
  "derive_global x globals =
     (let name = ext_name x
      in if re_test re_identifier name then assign name (camelCase name) globals else globals)"

definition derive_globals :: "env \<Rightarrow> options \<Rightarrow> ext list \<Rightarrow> (string \<times> string) list" where
  "derive_globals e options external =
     (let globals = fold derive_global external []
      in if truthy (opt_globals options) \<and> opt_globals options \<noteq> Some ''none''
         then object_assign globals (parseMappingArgument e (the (opt_globals options)))
         else globals)"

section \<open>The shebang cache\<close>

text \<open>\<open>/^#![^\n]*/\<close>\<close>

definition re_shebang :: rexp where
  "re_shebang = seqs [Bol, Chr CHR ''#'', Chr CHR ''!'', Star (NoneOf [only CHR 0x0A])]"

text \<open>
  The cache is one object for the whole process, written \<open>{}\<close> (line 290). The
  \<open>transform\<close> hook: the callback stores the match in the cache under the build's name
  and returns nothing, so the match is replaced by the text \<open>undefined\<close>. The engine calls
  the hook with the code of every module of the bundle, the entries and the modules they
  import alike, as the plugins before the hook have left it (in \<open>getConfigInput\<close> the
  compiler plugin comes before the hook, in \<open>createConfig\<close> after it).
\<close>

definition transform :: "options \<Rightarrow> string \<Rightarrow> shebang_cache \<Rightarrow> string \<times> shebang_cache" where
  "transform options code shebang =
     (case re_exec re_shebang code of
        None \<Rightarrow> (code, shebang)
      | Some (i, e) \<Rightarrow>
          (take i code @ ''undefined'' @ drop e code,
           set_property (opt_name options) (take (e - i) (drop i code)) shebang))"

text \<open>The \<open>banner\<close> getter of the output options: \<open>shebang[options.name]\<close>.\<close>

definition banner :: "options \<Rightarrow> shebang_cache \<Rightarrow> string property" where
  "banner options shebang = get_property shebang (opt_name options)"

section \<open>The name cache\<close>

text \<open>
  \<open>Object.assign({}, a, b)\<close> on JSON values: the own properties of an object, the indexed
  elements of an array or of a string; other values contribute nothing.
\<close>

fun show_nat :: "nat \<Rightarrow> string" where
  "show_nat n =
     (if n < 10 then [''0123456789'' ! n]
      else show_nat (n div 10) @ [''0123456789'' ! (n mod 10)])"

fun own_properties :: "json \<Rightarrow> (string \<times> json) list" where
  "own_properties (JObj kvs) = kvs"
| "own_properties (JArr xs) = zip (map show_nat [0..<length xs]) xs"
| "own_properties (JStr s) = zip (map show_nat [0..<length s]) (map (\<lambda>c. JStr [c]) s)"
| "own_properties v = []"

definition assign_json :: "json \<Rightarrow> json \<Rightarrow> json" where
  "assign_json a b = JObj (object_assign (object_assign [] (own_properties a)) (own_properties b))"

text \<open>
  The state of \<open>createConfig\<close> around \<open>loadNameCache\<close>: \<open>nameCache\<close> is \<open>None\<close> while it
  still is the object it was created as (\<open>bareNameCache\<close>).
\<close>

record cache_state =
  nameCache :: "json option"
  minifyOptions :: json

definition rawMinifyValue :: "options \<Rightarrow> json" where
  "rawMinifyValue options =
     (case pkg_minify (opt_pkg options) of
        Some v \<Rightarrow> if json_truthy v then v
                  else (case pkg_mangle (opt_pkg options) of
                          Some w \<Rightarrow> if json_truthy w then w else JObj []
                        | None \<Rightarrow> JObj [])
      | None \<Rightarrow> (case pkg_mangle (opt_pkg options) of
                   Some w \<Rightarrow> if json_truthy w then w else JObj []
                 | None \<Rightarrow> JObj []))"

definition getNameCachePath :: "env \<Rightarrow> options \<Rightarrow> string" where
  "getNameCachePath e options =
     (case rawMinifyValue options of
        JStr file \<Rightarrow> resolve (process_cwd e) [opt_cwd options, file]
      | _ \<Rightarrow> resolve (process_cwd e) [opt_cwd options, ''mangle.json''])"

text \<open>
  The body of the \<open>try\<close> block: the state it reaches, and the exception that ended it,
  if any. Reading a missing file and parsing a malformed one throw before \<open>nameCache\<close> is
  assigned; reading \<open>minify\<close> of \<open>null\<close> throws after.
\<close>

definition loadNameCache_body :: "env \<Rightarrow> options \<Rightarrow> cache_state \<Rightarrow> cache_state \<times> error option" where
  "loadNameCache_body e options st =
     (case readJson e (getNameCachePath e options) of
        Missing \<Rightarrow> (st, Some FileError)
      | Malformed \<Rightarrow> (st, Some SyntaxError)
      | Parsed j \<Rightarrow>
          (let st1 = st\<lparr>nameCache := Some j\<rparr> in
           case j of
             JNull \<Rightarrow> (st1, Some TypeError)
           | JObj kvs \<Rightarrow>
               (case map_of kvs ''minify'' of
                  Some m \<Rightarrow>
                    if json_truthy m
                    then (st1\<lparr>minifyOptions := assign_json (minifyOptions st1) m\<rparr>, None)
                    else (st1, None)
                | None \<Rightarrow> (st1, None))
           | _ \<Rightarrow> (st1, None)))"

text \<open>\<open>catch (e) {}\<close>: whatever was thrown is dropped.\<close>

definition loadNameCache :: "env \<Rightarrow> options \<Rightarrow> cache_state \<Rightarrow> cache_state" where
  "loadNameCache e options st = fst (loadNameCache_body e options st)"

text \<open>
  Lines 517 to 554 of \<open>createConfig\<close>: the option object and the name cache that the
  minifier gets; \<open>JNull\<close> is \<open>null\<close>.
\<close>

definition minify_setup :: "env \<Rightarrow> options \<Rightarrow> json \<times> json" where
  "minify_setup e options =
     (let raw = rawMinifyValue options;
          st0 = \<lparr>nameCache = None, minifyOptions = (case raw of JStr _ \<Rightarrow> JObj [] | _ \<Rightarrow> raw)\<rparr>;
          st1 = loadNameCache e options st0
      in (normalizeMinifyOptions e (minifyOptions st1),
          (case nameCache st1 of None \<Rightarrow> JNull | Some j \<Rightarrow> j)))"

section \<open>The configurations\<close>

record terser_options =
  t_minifyOptions :: json
  t_toplevel :: bool
  t_nameCache :: json

record step =
  st_input :: string
  st_external :: "string \<Rightarrow> bool"
  st_transform :: "string \<Rightarrow> shebang_cache \<Rightarrow> string \<times> shebang_cache"
  st_outputOptions :: output_config
  st_terser :: "terser_options option"

text \<open>
  \<open>getConfigInput\<close>. The key of an entry in \<open>input\<close> is the base name of its \<open>cjs\<close> path
  without the first \<open>.js\<close>. For the format \<open>cjs\<close> the result of \<open>getMain\<close> is always a
  path (\<open>options.output\<close>, or the own property \<open>cjs\<close> of \<open>mainsByFormat\<close>).
\<close>

definition cjsMain :: "string \<Rightarrow> options \<Rightarrow> string \<Rightarrow> string" where
  "cjsMain pcwd options entry =
     (case getMain pcwd options entry ''cjs'' of Own path \<Rightarrow> path | _ \<Rightarrow> [])"

definition getConfigInput :: "env \<Rightarrow> options \<Rightarrow> input_config" where
  "getConfigInput e options =
     (let pkg = opt_pkg options;
          external = builtins @ map Str (opt_entries options)
                     @ parseExternals e (opt_external options)
                         (pkg_peerDependencies pkg) (pkg_dependencies pkg)
      in \<lparr>ic_input =
            fold (\<lambda>entry acc.
                    assign (re_replace (Lit ''.js'')
                              (basename (cjsMain (process_cwd e) options entry)) (\<lambda>_. []))
                           entry acc)
                 (opt_entries options) [],
          ic_external = is_external e options external,
          ic_transform = transform options\<rparr>)"

definition outputAliases :: "options \<Rightarrow> (string \<times> string) list" where
  "outputAliases options =
     (if opt_multipleEntries options then [(''.'', ''./'' @ basename (opt_output options))]
      else [])"

text \<open>
  \<open>getConfigOutput\<close> plans for \<open>options.entries[0]\<close>. Without an entry that is
  \<open>undefined\<close>: \<open>getMain\<close> then returns \<open>options.output\<close> when \<open>pkg-main\<close> is off, and
  throws at \<open>entry.match\<close> otherwise. \<open>path.resolve\<close> throws when \<open>getMain\<close> returns a
  member of \<open>Object.prototype\<close>, which is not a string.
\<close>

definition getConfigOutput :: "string \<Rightarrow> options \<Rightarrow> string \<Rightarrow> bool \<Rightarrow> error + output_config" where
  "getConfigOutput pcwd options format writeMeta =
     (case (case opt_entries options of
              entry # _ \<Rightarrow>
                (case getMain pcwd options entry format of
                   Own main \<Rightarrow> Inr main
                 | _ \<Rightarrow> Inl TypeError)
            | [] \<Rightarrow> if \<not> opt_pkg_main options then Inr (opt_output options) else Inl TypeError) of
        Inl err \<Rightarrow> Inl err
      | Inr main \<Rightarrow>
          (let absMain = resolve pcwd [opt_cwd options, main] in
           Inr \<lparr>oc_paths = outputAliases options,
                oc_globals = None,
                oc_strict = opt_strict options,
                oc_sourcemap = opt_sourcemap options,
                oc_banner = banner options,
                oc_format = (if format = ''modern'' then ''es'' else format),
                oc_name = opt_name options,
                oc_dir = dirname absMain,
                oc_entryFileNames = ''[name].js''\<rparr>))"

text \<open>
  \<open>createConfig\<close>, which throws in the same way at line 560, after the globals and the
  name cache have been set up.
\<close>

definition createConfig :: "env \<Rightarrow> options \<Rightarrow> string \<Rightarrow> string \<Rightarrow> bool \<Rightarrow> error + step" where
  "createConfig e options entry format writeMeta =
     (let pkg = opt_pkg options;
          external = builtins @ map Str (filter (\<lambda>x. x \<noteq> entry) (opt_entries options))
                     @ parseExternals e (opt_external options)
                         (pkg_peerDependencies pkg) (pkg_dependencies pkg);
          modern = (format = ''modern'')
      in case getMain (process_cwd e) options entry format of
           Own main \<Rightarrow>
             (let absMain = resolve (process_cwd e) [opt_cwd options, main] in
              Inr \<lparr>st_input = entry,
                   st_external = is_external e options external,
                   st_transform = transform options,
                   st_outputOptions =
                     \<lparr>oc_paths = outputAliases options,
                      oc_globals = Some (derive_globals e options external),
                      oc_strict = opt_strict options,
                      oc_sourcemap = opt_sourcemap options,
                      oc_banner = banner options,
                      oc_format = (if modern then ''es'' else format),
                      oc_name = opt_name options,
                      oc_dir = dirname absMain,
                      oc_entryFileNames = basename absMain\<rparr>,
                   st_terser =
                     (if opt_compress options
                      then Some \<lparr>t_minifyOptions = fst (minify_setup e options),
                                 t_toplevel = (modern \<or> format = ''cjs'' \<or> format = ''es''),
                                 t_nameCache = snd (minify_setup e options)\<rparr>
                      else None)\<rparr>)
         | _ \<Rightarrow> Inl TypeError)"

section \<open>The build\<close>

subsection \<open>\<open>Array.prototype.sort\<close>\<close>

text \<open>
  The sort of V8 (Node 11 and later) on an array of fewer than 64 elements: the run at the
  start of the array is found (and reversed when it descends), and every later element is
  put into the sorted part by binary insertion. Longer arrays are sorted by merging such
  runs, which is not modelled. The comparison function of \<open>microbundle\<close> is not a
  consistent order, so the result depends on this algorithm.
\<close>

fun count_run :: "('a \<Rightarrow> 'a \<Rightarrow> int) \<Rightarrow> bool \<Rightarrow> 'a \<Rightarrow> 'a list \<Rightarrow> nat" where
  "count_run comparefn isDescending previousElement [] = 0"
| "count_run comparefn isDescending previousElement (currentElement # rest) =
     (let order = comparefn currentElement previousElement in
      if isDescending
      then (if order \<ge> 0 then 0 else Suc (count_run comparefn isDescending currentElement rest))
      else (if order < 0 then 0 else Suc (count_run comparefn isDescending currentElement rest)))"

definition CountAndMakeRun :: "('a \<Rightarrow> 'a \<Rightarrow> int) \<Rightarrow> 'a list \<Rightarrow> 'a list \<times> nat" where
  "CountAndMakeRun comparefn workArray =
     (case workArray of
        elementHigh # elementLow # rest \<Rightarrow>
          (let isDescending = (comparefn elementLow elementHigh < 0);
               runLength = 2 + count_run comparefn isDescending elementLow rest
           in if isDescending
              then (rev (take runLength workArray) @ drop runLength workArray, runLength)
              else (workArray, runLength))
      | _ \<Rightarrow> (workArray, length workArray))"

function bsearch :: "('a \<Rightarrow> 'a \<Rightarrow> int) \<Rightarrow> 'a \<Rightarrow> 'a list \<Rightarrow> nat \<Rightarrow> nat \<Rightarrow> nat" where
  "bsearch comparefn pivot workArray left right =
     (if left < right then
        (let mid = left + (right - left) div 2 in
         if comparefn pivot (workArray ! mid) < 0
         then bsearch comparefn pivot workArray left mid
         else bsearch comparefn pivot workArray (mid + 1) right)
      else left)"
  by pat_completeness auto
termination
  by (relation "measure (\<lambda>(comparefn, pivot, workArray, left, right). right - left)") auto

declare bsearch.simps [simp del]

text \<open>
  The array is the sorted part followed by the elements that are still to be inserted;
  the pivot is the first of these.
\<close>

fun BinaryInsertionSort :: "('a \<Rightarrow> 'a \<Rightarrow> int) \<Rightarrow> 'a list \<Rightarrow> 'a list \<Rightarrow> 'a list" where
  "BinaryInsertionSort comparefn sortedPart [] = sortedPart"
| "BinaryInsertionSort comparefn sortedPart (pivot # rest) =
     (let left = bsearch comparefn pivot sortedPart 0 (length sortedPart)
      in BinaryInsertionSort comparefn (take left sortedPart @ pivot # drop left sortedPart) rest)"

definition array_sort :: "('a \<Rightarrow> 'a \<Rightarrow> int) \<Rightarrow> 'a list \<Rightarrow> 'a list" where
  "array_sort comparefn xs =
     (if length xs < 2 then xs
      else (case CountAndMakeRun comparefn xs of
              (workArray, runLength) \<Rightarrow>
                BinaryInsertionSort comparefn (take runLength workArray) (drop runLength workArray)))"

subsection \<open>The orchestrator\<close>

text \<open>\<open>(a, b) => (a === 'cjs' ? -1 : a > b ? 1 : 0)\<close>\<close>

definition compareFormats :: "string \<Rightarrow> string \<Rightarrow> int" where
  "compareFormats a b = (if a = ''cjs'' then - 1 else if str_gt a b then 1 else 0)"

text \<open>Lines 41 to 84: the option bag that the rest of \<open>microbundle\<close> works on.\<close>

definition resolve_options :: "env \<Rightarrow> input_options \<Rightarrow> options" where
  "resolve_options e inputOptions =
     (let cwd = resolve (process_cwd e) [process_cwd e, in_cwd inputOptions];
          (hasPackageJson, pkg0) = getConfigFromPkgJson e cwd;
          (finalName, pkgName) =
             getName e (in_name inputOptions) (pkg_name pkg0) (pkg_amdName pkg0) hasPackageJson cwd;
          pkg = pkg0\<lparr>pkg_name := Some pkgName\<rparr>;
          input = getInput e (in_entries inputOptions) cwd (pkg_source pkg) (pkg_module pkg);
          output = getOutput e cwd (in_output inputOptions) (pkg_main pkg) pkgName;
          entries = getEntries e input cwd
      in \<lparr>opt_cwd = cwd,
          opt_pkg = pkg,
          opt_name = finalName,
          opt_entries = entries,
          opt_input = input,
          opt_output = output,
          opt_multipleEntries = False,
          opt_format = in_format inputOptions,
          opt_formats = in_formats inputOptions,
          opt_watch = in_watch inputOptions,
          opt_pkg_main = in_pkg_main inputOptions,
          opt_alias = in_alias inputOptions,
          opt_external = in_external inputOptions,
          opt_globals = in_globals inputOptions,
          opt_sourcemap = (in_sourcemap inputOptions \<noteq> Some False),
          opt_strict = in_strict inputOptions,
          opt_compress = in_compress inputOptions,
          opt_raw = in_raw inputOptions\<rparr>)"

text \<open>Lines 86 to 88; splitting \<open>undefined\<close> throws.\<close>

definition sorted_formats :: "options \<Rightarrow> error + string list" where
  "sorted_formats options =
     (case or_else (opt_format options) (opt_formats options) of
        None \<Rightarrow> Inl TypeError
      | Some fs \<Rightarrow> Inr (array_sort compareFormats (split_on CHR '','' fs)))"

text \<open>
  A watcher is the configuration it was created with: the input options, the output
  options, and the \<open>exclude\<close> pattern of \<open>WATCH_OPTS\<close>.
\<close>

record watcher =
  w_input :: string
  w_external :: "string \<Rightarrow> bool"
  w_output :: output_config
  w_exclude :: string

definition WATCH_OPTS :: string where
  "WATCH_OPTS = ''node_modules/**''"

definition doWatch :: "options \<Rightarrow> string \<Rightarrow> step list \<Rightarrow> (string \<times> watcher) list" where
  "doWatch options cwd steps =
     fold (\<lambda>st acc.
             assign (st_input st)
               \<lparr>w_input = st_input st, w_external = st_external st,
                w_output = st_outputOptions st, w_exclude = WATCH_OPTS\<rparr> acc)
          steps []"

text \<open>
  Lines 109 to 117: the size report of one write. Every chunk that has code is measured;
  the reports that are not empty are joined, one on a line. \<open>Promise.all\<close> is rejected
  when a measurement is.
\<close>

fun size_reports :: "env \<Rightarrow> options \<Rightarrow> (string option \<times> string) list \<Rightarrow> error + string list" where
  "size_reports e options [] = Inr []"
| "size_reports e options ((code, fileName) # output) =
     (if truthy code
      then (case getSizeInfo e (the code) fileName (opt_raw options) of
              Inl err \<Rightarrow> Inl err
            | Inr text \<Rightarrow>
                (case size_reports e options output of
                   Inl err \<Rightarrow> Inl err
                 | Inr texts \<Rightarrow> Inr (if text \<noteq> [] then text # texts else texts)))
      else size_reports e options output)"

text \<open>
  The loop of lines 103 to 118. Each turn plans the output of one format, in the order
  of the array, hands the plan to \<open>bundle.write\<close>, and waits for the write and for its size
  report before the next turn; the first exception or rejection ends the loop. The result
  is the list of the plans that \<open>bundle.write\<close> was called with, in the order of the calls,
  together with the error that ended the loop or the array \<open>out\<close> of the reports.
\<close>

fun write_formats :: "env \<Rightarrow> rollup_bundle \<Rightarrow> options \<Rightarrow> nat \<Rightarrow> string list
                        \<Rightarrow> output_config list \<times> (error + string list)" where
  "write_formats e bundle options i [] = ([], Inr [])"
| "write_formats e bundle options i (format # formats) =
     (case getConfigOutput (process_cwd e) options format (i = 0) of
        Inl err \<Rightarrow> ([], Inl err)
      | Inr config \<Rightarrow>
          (case bundle config of
             Inl err \<Rightarrow> ([config], Inl err)
           | Inr output \<Rightarrow>
               (case size_reports e options output of
                  Inl err \<Rightarrow> ([config], Inl err)
                | Inr texts \<Rightarrow>
                    (case write_formats e bundle options (Suc i) formats of
                       (calls, Inl err) \<Rightarrow> (config # calls, Inl err)
                     | (calls, Inr out) \<Rightarrow>
                         (config # calls, Inr (join [CHR 0x0A] texts # out))))))"

text \<open>
  What \<open>microbundle\<close> does. \<open>writes\<close> lists the plans that \<open>bundle.write\<close> was called
  with, in the order of the calls; \<open>returned\<close> is the error that the promise of
  \<open>microbundle\<close> is rejected with, or what it is resolved with: in watch mode the
  watchers, otherwise the size reports of the writes (the text that is returned puts them
  under a heading). The list of steps is empty (the loop that filled it is commented
  out). The shebang cache is not part of this state: the engine fills it through the hook
  of the input options while it makes the bundle, and reads it through the banner of a
  plan while it writes.
\<close>

datatype outcome = Watching "(string \<times> watcher) list" | Built "string list"

record run =
  writes :: "output_config list"
  returned :: "error + outcome"

definition microbundle :: "env \<Rightarrow> input_options \<Rightarrow> run" where
  "microbundle e inputOptions =
     (let options = resolve_options e inputOptions in
      case sorted_formats options of
        Inl err \<Rightarrow> \<lparr>writes = [], returned = Inl err\<rparr>
      | Inr formats \<Rightarrow>
          (case rollup e (getConfigInput e options) of
             Inl err \<Rightarrow> \<lparr>writes = [], returned = Inl err\<rparr>
           | Inr bundle \<Rightarrow>
               (let steps = [] in
                if opt_watch options
                then \<lparr>writes = [],
                      returned = Inr (Watching (doWatch options (opt_cwd options) steps))\<rparr>
                else (case write_formats e bundle options 0 formats of
                        (calls, Inl err) \<Rightarrow> \<lparr>writes = calls, returned = Inl err\<rparr>
                      | (calls, Inr out) \<Rightarrow> \<lparr>writes = calls, returned = Inr (Built out)\<rparr>))))"

section \<open>An example project\<close>

definition pkg0 :: manifest where
  "pkg0 = \<lparr>pkg_name = Some ''pkg'', pkg_amdName = None, pkg_main = Some ''dist/pkg.js'',
           pkg_module = None, pkg_jsnext_main = None, pkg_cjs_main = None, pkg_umd_main = None,
           pkg_esmodule = None, pkg_syntax_esmodules = None, pkg_types = None,
           pkg_typings = None, pkg_source = None, pkg_peerDependencies = [],
           pkg_dependencies = [''lodash-es''], pkg_minify = None, pkg_mangle = None\<rparr>"

definition env0 :: env where
  "env0 = \<lparr>process_cwd = ''/p'',
           isFile = (\<lambda>p. p = ''/p/src/index.js''),
           isDir = (\<lambda>p. p = ''/p/src''),
           glob = (\<lambda>p. if p = ''/p/src/index.js'' then [p] else []),
           readJson = (\<lambda>p. Missing),
           removeScope = (\<lambda>n. n),
           getConfigFromPkgJson = (\<lambda>cwd. (True, pkg0)),
           getName = (\<lambda>name pkgName amdName hasPackageJson cwd. (''pkg'', ''pkg'')),
           parseAliasArgument = (\<lambda>a. [(''lodash-es'', ''lodash'')]),
           parseExternals = (\<lambda>external peerDependencies dependencies.
                               map Str (peerDependencies @ dependencies)),
           parseMappingArgument = (\<lambda>g. [(''lodash-es'', ''_'')]),
           normalizeMinifyOptions = (\<lambda>m. m),
           rollup = (\<lambda>config. Inr (\<lambda>plan.
                      if oc_format plan \<in> set [''amd'', ''cjs'', ''es'', ''iife'', ''system'', ''umd'']
                      then Inr [(Some ''exports.f=f;'', ''pkg.js'')]
                      else Inl EngineError)),
           getSizeInfo = (\<lambda>code fileName raw. Inr fileName)\<rparr>"

definition inputOptions0 :: input_options where
  "inputOptions0 = \<lparr>in_cwd = ''.'', in_name = None, in_entries = [], in_output = None,
                     in_format = Some ''es,cjs,umd'', in_formats = None, in_watch = False,
                     in_pkg_main = True, in_alias = Some ''lodash-es=lodash'', in_external = None,
                     in_globals = None, in_sourcemap = None, in_strict = False,
                     in_compress = True, in_raw = False\<rparr>"

definition options0 :: options where
  "options0 = \<lparr>opt_cwd = ''/p'', opt_pkg = pkg0, opt_name = ''pkg'',
               opt_entries = [''/p/src/index.js''], opt_input = [''/p/src/index.js''],
               opt_output = ''/p/dist/pkg.js'', opt_multipleEntries = False,
               opt_format = Some ''es,cjs,umd'', opt_formats = None, opt_watch = False,
               opt_pkg_main = True, opt_alias = Some ''lodash-es=lodash'', opt_external = None,
               opt_globals = None, opt_sourcemap = True, opt_strict = False,
               opt_compress = True, opt_raw = False\<rparr>"

text \<open>A project whose only file is the one its manifest names as \<open>module\<close>.\<close>

definition env1 :: env where
  "env1 = env0\<lparr>isFile := (\<lambda>p. p = ''/p/lib/main.js''),
               isDir := (\<lambda>p. p = ''/p/lib''),
               glob := (\<lambda>p. if p = ''lib/main.js'' \<or> p = ''/p/lib/main.js'' then [p] else []),
               getConfigFromPkgJson := (\<lambda>cwd. (True, pkg0\<lparr>pkg_module := Some ''lib/main.js''\<rparr>))\<rparr>"

text \<open>
  For statements about planned paths: the text of a path after its last slash, and
  whether a text is a name for a file (it is not empty and is neither \<open>.\<close> nor \<open>..\<close>).
\<close>

definition file_name :: "string \<Rightarrow> string" where
  "file_name p = last (split_on CHR ''/'' p)"

definition proper_name :: "string \<Rightarrow> bool" where
  "proper_name w = (w \<noteq> [] \<and> w \<noteq> ''.'' \<and> w \<noteq> ''..'')"

text \<open>
  The example project with the manifest field \<open>module\<close> set to \<open>dist/pkg.module.js\<close>.
\<close>

definition options1 :: options where
  "options1 = options0\<lparr>opt_pkg := pkg0\<lparr>pkg_module := Some ''dist/pkg.module.js''\<rparr>\<rparr>"

text \<open>
  The interpreter directive of a Node script; a script that begins with it and imports a
  module; and that module, which is a script with a directive of its own.
\<close>

abbreviation directive :: string where
  "directive \<equiv> ''#!/usr/bin/env node''"

definition cli_source :: string where
  "cli_source = directive @ [CHR 0x0A] @ ''require(`./tool`).run();''"

definition tool_source :: string where
  "tool_source = ''#!/usr/bin/node'' @ [CHR 0x0A] @ ''exports.run = main;''"

section \<open>Paths and plans\<close>

lemma resolve_nonempty: "resolve pcwd paths \<noteq> []"
  by (simp add: resolve_def Let_def split: prod.splits)

lemma replaceName_nonempty: "replaceName pcwd filename name \<noteq> []"
  by (simp add: replaceName_def resolve_nonempty)

lemma map_of_assign: "map_of (assign k v kvs) x = (if x = k then Some v else map_of kvs x)"
  by (induction kvs) auto

text \<open>
  What \<open>getMain\<close> returns: \<open>options.output\<close> without \<open>pkg-main\<close>; with it, the path made
  from the format's template for the four formats, the inherited member for a format that
  names one, and a path (that of \<open>cjs\<close>) for every other format.
\<close>

lemma getMain_off:
  "\<not> opt_pkg_main options \<Longrightarrow> getMain pcwd options entry format = Own (opt_output options)"
  by (simp add: getMain_def)

lemma getMain_four:
  assumes "opt_pkg_main options" and "format \<in> {''es'', ''modern'', ''cjs'', ''umd''}"
  shows "getMain pcwd options entry format =
           Own (replaceName pcwd (template (opt_pkg options) format)
                  (mainNoExtension pcwd options entry))"
  using assms by (auto simp: getMain_def Let_def get_property_def replaceName_nonempty)

lemma getMain_inherited:
  assumes "opt_pkg_main options" and "format \<in> set prototype_keys"
  shows "getMain pcwd options entry format = Inherited format"
  using assms by (auto simp: getMain_def Let_def get_property_def prototype_keys_def)

lemma getMain_path:
  assumes "format \<notin> set prototype_keys \<or> \<not> opt_pkg_main options"
  shows "\<exists>path. getMain pcwd options entry format = Own path"
proof (cases "opt_pkg_main options")
  case False
  then show ?thesis by (simp add: getMain_off)
next
  case True
  with assms have "format \<notin> set prototype_keys" by simp
  with True show ?thesis
    by (auto simp: getMain_def Let_def get_property_def replaceName_nonempty)
qed

lemma getMain_cjs: "\<exists>path. getMain pcwd options entry ''cjs'' = Own path"
  by (rule getMain_path) (simp add: prototype_keys_def)

text \<open>What \<open>getConfigOutput\<close> plans, and when it does.\<close>

lemma getConfigOutput_plan:
  assumes "getConfigOutput pcwd options format writeMeta = Inr plan"
  shows "oc_format plan = (if format = ''modern'' then ''es'' else format)"
    and "oc_banner plan = banner options"
    and "oc_entryFileNames plan = ''[name].js''"
  using assms
  by (auto simp: getConfigOutput_def Let_def split: list.splits property.splits if_splits)

lemma getConfigOutput_returns:
  assumes "opt_entries options \<noteq> [] \<or> \<not> opt_pkg_main options"
    and "format \<notin> set prototype_keys \<or> \<not> opt_pkg_main options"
  shows "\<exists>plan. getConfigOutput pcwd options format writeMeta = Inr plan"
proof (cases "opt_entries options")
  case Nil
  with assms(1) show ?thesis by (simp add: getConfigOutput_def Let_def)
next
  case (Cons entry rest)
  from getMain_path [OF assms(2)] obtain path where "getMain pcwd options entry format = Own path"
    by blast
  with Cons show ?thesis by (simp add: getConfigOutput_def Let_def)
qed

text \<open>\<open>createConfig\<close> throws only for a format that names a member of \<open>Object.prototype\<close>.\<close>

lemma createConfig_throws:
  assumes "createConfig e options entry format writeMeta = Inl err"
  shows "opt_pkg_main options \<and> format \<in> set prototype_keys"
proof (rule ccontr)
  assume "\<not> (opt_pkg_main options \<and> format \<in> set prototype_keys)"
  then have "format \<notin> set prototype_keys \<or> \<not> opt_pkg_main options" by blast
  from getMain_path [OF this] obtain path where
    "getMain (process_cwd e) options entry format = Own path" by blast
  with assms show False by (simp add: createConfig_def Let_def)
qed

lemma createConfig_returns:
  assumes "createConfig e options entry format writeMeta = Inr st"
  shows "st_external st =
           is_external e options
             (builtins @ map Str (filter (\<lambda>x. x \<noteq> entry) (opt_entries options))
              @ parseExternals e (opt_external options)
                  (pkg_peerDependencies (opt_pkg options)) (pkg_dependencies (opt_pkg options)))"
    and "oc_globals (st_outputOptions st) =
           Some (derive_globals e options
             (builtins @ map Str (filter (\<lambda>x. x \<noteq> entry) (opt_entries options))
              @ parseExternals e (opt_external options)
                  (pkg_peerDependencies (opt_pkg options)) (pkg_dependencies (opt_pkg options))))"
    and "st_terser st =
           (if opt_compress options
            then Some \<lparr>t_minifyOptions = fst (minify_setup e options),
                       t_toplevel = (format = ''modern'' \<or> format = ''cjs'' \<or> format = ''es''),
                       t_nameCache = snd (minify_setup e options)\<rparr>
            else None)"
  using assms by (auto simp: createConfig_def Let_def split: property.splits)

lemma resolved_fields:
  "opt_format (resolve_options e io) = in_format io"
  "opt_formats (resolve_options e io) = in_formats io"
  "opt_watch (resolve_options e io) = in_watch io"
  "opt_alias (resolve_options e io) = in_alias io"
  "opt_multipleEntries (resolve_options e io) = False"
  "opt_pkg_main (resolve_options e io) = in_pkg_main io"
  by (simp_all add: resolve_options_def Let_def case_prod_beta)

lemma example_entries: "opt_entries (resolve_options env0 inputOptions0) = [''/p/src/index.js'']"
  by code_simp

section \<open>The order of the writes\<close>

lemma compare_cjs: "(compareFormats a b < 0) = (a = ''cjs'')"
  by (simp add: compareFormats_def)

lemma compare_other: "(0 \<le> compareFormats a b) = (a \<noteq> ''cjs'')"
  by (simp add: compareFormats_def)

lemma bsearch_low:
  "(\<And>x. comparefn p x < 0) \<Longrightarrow> bsearch comparefn p arr left right = left"
proof (induction comparefn p arr left right rule: bsearch.induct)
  case (1 comparefn p arr left right)
  then show ?case
    by (subst bsearch.simps) (simp add: Let_def)
qed

lemma bsearch_high:
  "(\<And>x. \<not> comparefn p x < 0) \<Longrightarrow> left \<le> right
     \<Longrightarrow> bsearch comparefn p arr left right = right"
proof (induction comparefn p arr left right rule: bsearch.induct)
  case (1 comparefn p arr left right)
  show ?case
  proof (cases "left < right")
    case True
    then have "left + (right - left) div 2 + 1 \<le> right" by arith
    with 1 True show ?thesis
      by (subst bsearch.simps) (simp add: Let_def)
  next
    case False
    with 1 show ?thesis by (subst bsearch.simps) simp
  qed
qed

lemma bsearch_cjs: "bsearch compareFormats ''cjs'' arr left right = left"
  by (rule bsearch_low) (simp add: compare_cjs)

lemma bsearch_other:
  "p \<noteq> ''cjs'' \<Longrightarrow> left \<le> right \<Longrightarrow> bsearch compareFormats p arr left right = right"
  by (rule bsearch_high) (simp_all add: compare_cjs)

lemma filter_same_snoc: "filter (\<lambda>x. x = c) ys @ [c] = c # filter (\<lambda>x. x = c) ys"
  by (induction ys) auto

lemma insertion_partition:
  "BinaryInsertionSort compareFormats s rest =
     filter (\<lambda>f. f = ''cjs'') rest @ s @ filter (\<lambda>f. f \<noteq> ''cjs'') rest"
proof (induction rest arbitrary: s)
  case Nil
  show ?case by simp
next
  case (Cons p rest)
  show ?case
  proof (cases "p = ''cjs''")
    case True
    have "filter (\<lambda>f. f = ''cjs'') rest @ ''cjs'' # s = ''cjs'' # filter (\<lambda>f. f = ''cjs'') rest @ s"
      using filter_same_snoc [of "''cjs''" rest] by (metis append_Cons append_Nil append_assoc)
    with True Cons show ?thesis by (simp add: bsearch_cjs)
  next
    case False
    with Cons show ?thesis by (simp add: bsearch_other)
  qed
qed

lemma count_run_asc:
  "count_run compareFormats False prev rest = length (takeWhile (\<lambda>f. f \<noteq> ''cjs'') rest)"
  by (induction rest arbitrary: prev) (auto simp: compare_cjs compare_other Let_def)

lemma count_run_desc:
  "count_run compareFormats True prev rest = length (takeWhile (\<lambda>f. f = ''cjs'') rest)"
  by (induction rest arbitrary: prev) (auto simp: compare_cjs compare_other Let_def not_less)

lemma filter_takeWhile_dropWhile:
  "filter P (takeWhile Q xs) @ filter P (dropWhile Q xs) = filter P xs"
  by (metis filter_append takeWhile_dropWhile_id)

lemma take_run: "take (length (takeWhile P xs)) xs = takeWhile P xs"
  by (induction xs) auto

lemma drop_run: "drop (length (takeWhile P xs)) xs = dropWhile P xs"
  by (induction xs) auto

lemma same_eq:
  "\<forall>x\<in>set A. x = c \<Longrightarrow> \<forall>x\<in>set B. x = c \<Longrightarrow> length A = length B \<Longrightarrow> A = B"
  by (metis replicate_length_same)

lemma filter_takeWhile_same: "filter P (takeWhile P xs) = takeWhile P xs"
  by (induction xs) auto

lemma filter_takeWhile_none: "filter (\<lambda>x. \<not> P x) (takeWhile P xs) = []"
  by (induction xs) auto

lemma filter_takeWhile_none': "filter P (takeWhile (\<lambda>x. \<not> P x) xs) = []"
  by (induction xs) auto

lemma array_sort_partition:
  "array_sort compareFormats xs =
     filter (\<lambda>f. f = ''cjs'') xs @ filter (\<lambda>f. f \<noteq> ''cjs'') xs"
proof (cases xs)
  case Nil
  then show ?thesis by (simp add: array_sort_def)
next
  case (Cons a0 ys)
  note xs = Cons
  show ?thesis
  proof (cases ys)
    case Nil
    with xs show ?thesis by (simp add: array_sort_def)
  next
    case (Cons a1 rest)
    show ?thesis
    proof (cases "a1 = ''cjs''")
      case True
      let ?tw = "takeWhile (\<lambda>f. f = ''cjs'') rest"
      let ?dw = "dropWhile (\<lambda>f. f = ''cjs'') rest"
      let ?A = "filter (\<lambda>f. f = ''cjs'') ?dw @ rev (''cjs'' # ?tw)"
      let ?W = "rev (a0 # a1 # ?tw)"
      have run: "CountAndMakeRun compareFormats xs = (?W @ ?dw, length ?W)"
        using True unfolding xs Cons
        by (simp add: CountAndMakeRun_def Let_def compare_cjs count_run_desc take_run drop_run)
      have len: "\<not> length xs < 2"
        using xs Cons by simp
      have sorted: "array_sort compareFormats xs =
              filter (\<lambda>f. f = ''cjs'') ?dw @ ?W @ filter (\<lambda>f. f \<noteq> ''cjs'') ?dw"
        unfolding array_sort_def run using len
        by (simp add: insertion_partition del: rev.simps)
      have f1: "filter (\<lambda>f. f \<noteq> ''cjs'') rest = filter (\<lambda>f. f \<noteq> ''cjs'') ?dw"
        using filter_takeWhile_dropWhile [of "\<lambda>f. f \<noteq> ''cjs''" "\<lambda>f. f = ''cjs''" rest]
        by (simp add: filter_takeWhile_none)
      have f2: "filter (\<lambda>f. f = ''cjs'') rest = ?tw @ filter (\<lambda>f. f = ''cjs'') ?dw"
        using filter_takeWhile_dropWhile [of "\<lambda>f. f = ''cjs''" "\<lambda>f. f = ''cjs''" rest]
        by (simp add: filter_takeWhile_same)
      have A: "?A = ''cjs'' # filter (\<lambda>f. f = ''cjs'') rest"
        by (rule same_eq [where c = "''cjs''"]) (auto simp: f2 dest: set_takeWhileD)
      have "array_sort compareFormats xs = ?A @ filter (\<lambda>f. f = ''cjs'') [a0] @ filter (\<lambda>f. f \<noteq> ''cjs'') [a0]
               @ filter (\<lambda>f. f \<noteq> ''cjs'') rest"
        using True by (simp add: sorted f1)
      also have "\<dots> = filter (\<lambda>f. f = ''cjs'') xs @ filter (\<lambda>f. f \<noteq> ''cjs'') xs"
        unfolding A using True xs Cons by (simp add: filter_same_snoc)
      finally show ?thesis .
    next
      case False
      let ?tw = "takeWhile (\<lambda>f. f \<noteq> ''cjs'') rest"
      let ?dw = "dropWhile (\<lambda>f. f \<noteq> ''cjs'') rest"
      let ?W = "a0 # a1 # ?tw"
      have run: "CountAndMakeRun compareFormats xs = (?W @ ?dw, length ?W)"
        using False unfolding xs Cons
        by (simp add: CountAndMakeRun_def Let_def compare_cjs count_run_asc)
      have len: "\<not> length xs < 2"
        using xs Cons by simp
      have sorted: "array_sort compareFormats xs =
              filter (\<lambda>f. f = ''cjs'') ?dw @ ?W @ filter (\<lambda>f. f \<noteq> ''cjs'') ?dw"
        unfolding array_sort_def run using len
        by (simp add: insertion_partition take_run drop_run)
      have f1: "filter (\<lambda>f. f \<noteq> ''cjs'') rest = ?tw @ filter (\<lambda>f. f \<noteq> ''cjs'') ?dw"
        using filter_takeWhile_dropWhile [of "\<lambda>f. f \<noteq> ''cjs''" "\<lambda>f. f \<noteq> ''cjs''" rest]
        by (simp add: filter_takeWhile_same)
      have f2: "filter (\<lambda>f. f = ''cjs'') rest = filter (\<lambda>f. f = ''cjs'') ?dw"
        using filter_takeWhile_dropWhile [of "\<lambda>f. f = ''cjs''" "\<lambda>f. f \<noteq> ''cjs''" rest]
        by (simp add: filter_takeWhile_none')
      show ?thesis
      proof (cases "a0 = ''cjs''")
        case True
        have "filter (\<lambda>f. f = ''cjs'') ?dw @ [''cjs''] = ''cjs'' # filter (\<lambda>f. f = ''cjs'') ?dw"
          by (rule filter_same_snoc)
        then show ?thesis
          unfolding sorted using True False by (simp add: xs Cons f1 f2)
      next
        case a0: False
        show ?thesis
          unfolding sorted using a0 False by (simp add: xs Cons f1 f2)
      qed
    qed
  qed
qed

lemma partition_order:
  assumes "ws = filter P xs @ filter (\<lambda>x. \<not> P x) xs"
    and "i < length ws" and "j < length ws" and "P (ws ! i)" and "\<not> P (ws ! j)"
  shows "i < j"
proof -
  let ?n = "length (filter P xs)"
  have "\<not> j < ?n"
  proof
    assume "j < ?n"
    then have "ws ! j = filter P xs ! j" "filter P xs ! j \<in> set (filter P xs)"
      using assms(1) by (simp_all add: nth_append del: set_filter)
    with assms(5) show False by simp
  qed
  moreover have "i < ?n"
  proof (rule ccontr)
    assume a: "\<not> i < ?n"
    then have "ws ! i = filter (\<lambda>x. \<not> P x) xs ! (i - ?n)"
      using assms(1) by (simp add: nth_append)
    moreover have "i - ?n < length (filter (\<lambda>x. \<not> P x) xs)"
      using a assms(1,2) by simp
    ultimately have "ws ! i \<in> set (filter (\<lambda>x. \<not> P x) xs)"
      by (metis nth_mem)
    with assms(4) show False by simp
  qed
  ultimately show ?thesis by simp
qed

text \<open>
  The calls of \<open>bundle.write\<close>: their formats are an initial part of the formats of the
  array, in its order (\<open>modern\<close> is written as \<open>es\<close>); the first call is made as soon as
  the first format has a plan; and every format is written when every plan is made and
  every write and size report succeeds.
\<close>

lemma write_formats_prefix:
  "\<exists>k. map oc_format (fst (write_formats e bundle options i formats))
         = take k (map (\<lambda>f. if f = ''modern'' then ''es'' else f) formats)"
proof (induction formats arbitrary: i)
  case Nil
  show ?case by simp
next
  case (Cons f formats)
  let ?fmt = "\<lambda>f. if f = ''modern'' then ''es'' else f"
  show ?case
  proof (cases "getConfigOutput (process_cwd e) options f (i = 0)")
    case (Inl err)
    then show ?thesis by (intro exI [of _ 0]) simp
  next
    case (Inr plan)
    then have fp: "oc_format plan = ?fmt f"
      by (rule getConfigOutput_plan(1))
    from Cons.IH [of "Suc i"] obtain k where
      k: "map oc_format (fst (write_formats e bundle options (Suc i) formats))
            = take k (map ?fmt formats)"
      by blast
    show ?thesis
    proof (cases "bundle plan")
      case (Inl err)
      with Inr fp show ?thesis by (intro exI [of _ 1]) simp
    next
      case out: (Inr chunks)
      show ?thesis
      proof (cases "size_reports e options chunks")
        case (Inl err)
        with Inr out fp show ?thesis by (intro exI [of _ 1]) simp
      next
        case texts: (Inr texts)
        obtain calls r where w: "write_formats e bundle options (Suc i) formats = (calls, r)"
          by (cases "write_formats e bundle options (Suc i) formats")
        with k have "map oc_format calls = take k (map ?fmt formats)" by simp
        with Inr out texts fp w show ?thesis
          by (intro exI [of _ "Suc k"]) (cases r; simp)
      qed
    qed
  qed
qed

lemma write_formats_first:
  assumes "getConfigOutput (process_cwd e) options f (i = 0) = Inr plan"
  shows "fst (write_formats e bundle options i (f # formats)) \<noteq> []
         \<and> hd (fst (write_formats e bundle options i (f # formats))) = plan"
  using assms by (auto split: sum.splits prod.splits)

lemma write_formats_complete:
  assumes "\<forall>f \<in> set formats. \<forall>w. \<exists>plan chunks texts.
             getConfigOutput (process_cwd e) options f w = Inr plan
             \<and> bundle plan = Inr chunks \<and> size_reports e options chunks = Inr texts"
  shows "\<exists>calls out. write_formats e bundle options i formats = (calls, Inr out)
           \<and> length calls = length formats \<and> length out = length formats"
  using assms
proof (induction formats arbitrary: i)
  case Nil
  show ?case by simp
next
  case (Cons f formats)
  from Cons.prems obtain plan chunks texts where
    p: "getConfigOutput (process_cwd e) options f (i = 0) = Inr plan"
      "bundle plan = Inr chunks" "size_reports e options chunks = Inr texts"
    by (metis list.set_intros(1))
  from Cons.IH [of "Suc i"] Cons.prems obtain calls out where
    w: "write_formats e bundle options (Suc i) formats = (calls, Inr out)"
      "length calls = length formats" "length out = length formats"
    by auto
  from p w show ?case by simp
qed

lemma take_full: "xs = take k ys \<Longrightarrow> length xs = length ys \<Longrightarrow> xs = ys"
  by (cases "length ys \<le> k") auto

lemma take_partition_order:
  assumes "ws = take k (filter P xs @ filter (\<lambda>x. \<not> P x) xs)"
    and "i < length ws" and "j < length ws" and "P (ws ! i)" and "\<not> P (ws ! j)"
  shows "i < j"
proof -
  define L where "L = filter P xs @ filter (\<lambda>x. \<not> P x) xs"
  have ws: "ws = take k L"
    unfolding L_def by (rule assms(1))
  have i: "i < length L" "ws ! i = L ! i" and j: "j < length L" "ws ! j = L ! j"
    using assms(2,3) unfolding ws by simp_all
  show ?thesis
  proof (rule partition_order [where P = P and xs = xs and ws = L])
    show "L = filter P xs @ filter (\<lambda>x. \<not> P x) xs" by (rule L_def)
    show "i < length L" "j < length L" by (rule i(1), rule j(1))
    show "P (L ! i)" "\<not> P (L ! j)" using assms(4,5) i(2) j(2) by simp_all
  qed
qed

text \<open>
  Claim C2. The requested formats contain \<open>cjs\<close>, the list is short enough for the sort
  modelled above, the build is not a watch, the engine has made a bundle, and there is an
  entry or \<open>pkg-main\<close> is off (without an entry and with \<open>pkg-main\<close> no output can be
  planned). Then the first call of \<open>bundle.write\<close> is made with the plan of a \<open>cjs\<close>
  output, and every call with a \<open>cjs\<close> plan comes before every call with the plan of
  another format. When moreover every plan can be made (no format names a member of
  \<open>Object.prototype\<close> while \<open>pkg-main\<close> is on) and the engine and the size measurement
  reject none of them, the build returns its reports after one write for every requested
  format: the \<open>cjs\<close> outputs first, then the other formats in the order in which they
  were requested.
\<close>

theorem cjs_written_first:
  assumes "or_else (in_format io) (in_formats io) = Some fs"
    and "length (split_on CHR '','' fs) < 64"
    and "''cjs'' \<in> set (split_on CHR '','' fs)"
    and "\<not> in_watch io"
    and "opt_entries (resolve_options e io) \<noteq> [] \<or> \<not> in_pkg_main io"
    and "rollup e (getConfigInput e (resolve_options e io)) = Inr bundle"
  shows "writes (microbundle e io) \<noteq> []
         \<and> oc_format (hd (writes (microbundle e io))) = ''cjs''
         \<and> (\<forall>i j. i < length (writes (microbundle e io)) \<and> j < length (writes (microbundle e io))
                 \<and> oc_format (writes (microbundle e io) ! i) = ''cjs''
                 \<and> oc_format (writes (microbundle e io) ! j) \<noteq> ''cjs'' \<longrightarrow> i < j)
         \<and> ((\<forall>f \<in> set (split_on CHR '','' fs). \<forall>w. \<exists>plan chunks texts.
                 getConfigOutput (process_cwd e) (resolve_options e io) f w = Inr plan
                 \<and> bundle plan = Inr chunks
                 \<and> size_reports e (resolve_options e io) chunks = Inr texts) \<longrightarrow>
             (\<exists>out. returned (microbundle e io) = Inr (Built out)
                    \<and> length out = length (split_on CHR '','' fs))
             \<and> map oc_format (writes (microbundle e io))
                 = map (\<lambda>f. if f = ''modern'' then ''es'' else f)
                     (filter (\<lambda>f. f = ''cjs'') (split_on CHR '','' fs)
                      @ filter (\<lambda>f. f \<noteq> ''cjs'') (split_on CHR '','' fs)))"
proof -
  let ?req = "split_on CHR '','' fs"
  let ?o = "resolve_options e io"
  let ?fmt = "\<lambda>f. if f = ''modern'' then ''es'' else f"
  let ?sorted = "filter (\<lambda>f. f = ''cjs'') ?req @ filter (\<lambda>f. f \<noteq> ''cjs'') ?req"
  let ?w = "write_formats e bundle ?o 0 ?sorted"
  have sf: "sorted_formats ?o = Inr ?sorted"
    using assms(1) by (simp add: sorted_formats_def resolved_fields array_sort_partition)
  have run: "writes (microbundle e io) = fst ?w"
    and ret: "returned (microbundle e io) = (case snd ?w of Inl err \<Rightarrow> Inl err | Inr out \<Rightarrow> Inr (Built out))"
    unfolding microbundle_def Let_def sf using assms(4,6)
    by (simp_all add: resolved_fields split: prod.splits sum.splits)
  obtain cs where c: "filter (\<lambda>f. f = ''cjs'') ?req = ''cjs'' # cs"
    using assms(3) by (cases "filter (\<lambda>f. f = ''cjs'') ?req") (auto simp: filter_empty_conv dest: filter_eq_ConsD)
  then have s: "?sorted = ''cjs'' # cs @ filter (\<lambda>f. f \<noteq> ''cjs'') ?req"
    by simp
  have "opt_entries ?o \<noteq> [] \<or> \<not> opt_pkg_main ?o"
    using assms(5) by (simp add: resolved_fields)
  moreover have "''cjs'' \<notin> set prototype_keys \<or> \<not> opt_pkg_main ?o"
    by (simp add: prototype_keys_def)
  ultimately obtain plan where p: "getConfigOutput (process_cwd e) ?o ''cjs'' (0 = (0::nat)) = Inr plan"
    using getConfigOutput_returns by blast
  have pf: "oc_format plan = ''cjs''"
    using getConfigOutput_plan(1) [OF p] by simp
  have first: "fst ?w \<noteq> [] \<and> hd (fst ?w) = plan"
    unfolding s by (rule write_formats_first [OF p])
  obtain k where k: "map oc_format (fst ?w) = take k (map ?fmt ?sorted)"
    using write_formats_prefix by blast
  have e1: "(\<lambda>f. f = ''cjs'') \<circ> ?fmt = (\<lambda>f. f = ''cjs'')"
    and e2: "(\<lambda>f. \<not> f = ''cjs'') \<circ> ?fmt = (\<lambda>f. f \<noteq> ''cjs'')"
    by (auto simp: fun_eq_iff)
  have part: "map ?fmt ?sorted = filter (\<lambda>f. f = ''cjs'') (map ?fmt ?req)
                 @ filter (\<lambda>f. \<not> f = ''cjs'') (map ?fmt ?req)"
    by (simp only: filter_map e1 e2 map_append)
  have ord: "i < j" if "i < length (fst ?w)" "j < length (fst ?w)"
      "oc_format (fst ?w ! i) = ''cjs''" "oc_format (fst ?w ! j) \<noteq> ''cjs''" for i j
  proof (rule take_partition_order [where P = "\<lambda>f. f = ''cjs''" and ws = "map oc_format (fst ?w)"
        and xs = "map ?fmt ?req" and k = k])
    show "map oc_format (fst ?w)
            = take k (filter (\<lambda>f. f = ''cjs'') (map ?fmt ?req) @ filter (\<lambda>f. \<not> f = ''cjs'') (map ?fmt ?req))"
      by (simp only: k part)
  qed (use that in simp_all)
  have all: "(\<exists>out. returned (microbundle e io) = Inr (Built out) \<and> length out = length ?req)
             \<and> map oc_format (writes (microbundle e io)) = map ?fmt ?sorted"
    if h: "\<forall>f \<in> set ?req. \<forall>w. \<exists>plan chunks texts.
                 getConfigOutput (process_cwd e) ?o f w = Inr plan
                 \<and> bundle plan = Inr chunks \<and> size_reports e ?o chunks = Inr texts"
  proof -
    have "\<forall>f \<in> set ?sorted. \<forall>w. \<exists>plan chunks texts.
                 getConfigOutput (process_cwd e) ?o f w = Inr plan
                 \<and> bundle plan = Inr chunks \<and> size_reports e ?o chunks = Inr texts"
      using h by auto
    from write_formats_complete [OF this, of 0] obtain calls out where
      w: "?w = (calls, Inr out)" "length calls = length ?sorted" "length out = length ?sorted"
      by blast
    have len: "length ?sorted = length ?req"
      using sum_length_filter_compl [of "\<lambda>f. f = ''cjs''" ?req] by simp
    have "length (map oc_format (fst ?w)) = length (map ?fmt ?sorted)"
      using w by simp
    with k have "map oc_format (fst ?w) = map ?fmt ?sorted"
      by (rule take_full)
    with w len show ?thesis
      by (simp add: run ret)
  qed
  from first pf ord all show ?thesis
    unfolding run by blast
qed

theorem cjs_written_first_witness:
  "map oc_format (writes (microbundle env0 inputOptions0)) = [''cjs'', ''es'', ''umd'']
   \<and> (\<exists>out. returned (microbundle env0 inputOptions0) = Inr (Built out) \<and> length out = 3)"
proof -
  let ?o = "resolve_options env0 inputOptions0"
  let ?engine = "\<lambda>plan. if oc_format plan \<in> set [''amd'', ''cjs'', ''es'', ''iife'', ''system'', ''umd'']
                      then Inr [(Some ''exports.f=f;'', ''pkg.js'')]
                      else Inl EngineError"
  have a: "or_else (in_format inputOptions0) (in_formats inputOptions0) = Some ''es,cjs,umd''"
    by (simp add: inputOptions0_def or_else_def truthy_def)
  have s: "split_on CHR '','' ''es,cjs,umd'' = [''es'', ''cjs'', ''umd'']"
    by simp
  have b: "length (split_on CHR '','' ''es,cjs,umd'') < 64"
    and c: "''cjs'' \<in> set (split_on CHR '','' ''es,cjs,umd'')"
    unfolding s by simp_all
  have d: "\<not> in_watch inputOptions0"
    by (simp add: inputOptions0_def)
  have e: "opt_entries ?o \<noteq> [] \<or> \<not> in_pkg_main inputOptions0"
    by (simp add: example_entries)
  have r: "rollup env0 (getConfigInput env0 ?o) = Inr ?engine"
    by (simp add: env0_def)
  have sizes: "size_reports env0 ?o [(Some ''exports.f=f;'', ''pkg.js'')] = Inr [''pkg.js'']"
    by (simp add: env0_def truthy_def)
  have plans: "\<exists>plan chunks texts.
                 getConfigOutput (process_cwd env0) ?o f w = Inr plan
                 \<and> ?engine plan = Inr chunks \<and> size_reports env0 ?o chunks = Inr texts"
    if "f \<in> set [''es'', ''cjs'', ''umd'']" for f w
  proof -
    have "opt_entries ?o \<noteq> [] \<or> \<not> opt_pkg_main ?o"
      by (simp add: example_entries)
    moreover have "f \<notin> set prototype_keys \<or> \<not> opt_pkg_main ?o"
      using that by (auto simp: prototype_keys_def)
    ultimately obtain plan where p: "getConfigOutput (process_cwd env0) ?o f w = Inr plan"
      using getConfigOutput_returns by blast
    have "oc_format plan = f"
      using getConfigOutput_plan(1) [OF p] that by auto
    with that have "?engine plan = Inr [(Some ''exports.f=f;'', ''pkg.js'')]"
      by auto
    with p sizes show ?thesis by blast
  qed
  from cjs_written_first [OF a b c d e r] plans show ?thesis
    unfolding s by (simp add: numeral_3_eq_3)
qed

text \<open>
  Two builds of the example project that are rejected after the \<open>cjs\<close> output has been
  written: the engine rejects the write of a format it does not know, and no output can
  be planned for a format that names a member of \<open>Object.prototype\<close>.
\<close>

lemma resolved_entries_format:
  "opt_entries (resolve_options e (io\<lparr>in_format := f\<rparr>)) = opt_entries (resolve_options e io)"
  by (simp add: resolve_options_def Let_def case_prod_beta)

lemma example_rejected:
  "map oc_format (writes (microbundle env0 (inputOptions0\<lparr>in_format := Some ''bogus,cjs''\<rparr>)))
     = [''cjs'', ''bogus'']"
  "returned (microbundle env0 (inputOptions0\<lparr>in_format := Some ''bogus,cjs''\<rparr>))
     = Inl EngineError"
  "map oc_format (writes (microbundle env0 (inputOptions0\<lparr>in_format := Some ''toString,cjs''\<rparr>)))
     = [''cjs'']"
  "returned (microbundle env0 (inputOptions0\<lparr>in_format := Some ''toString,cjs''\<rparr>))
     = Inl TypeError"
proof -
  let ?engine = "\<lambda>plan. if oc_format plan \<in> set [''amd'', ''cjs'', ''es'', ''iife'', ''system'', ''umd'']
                      then Inr [(Some ''exports.f=f;'', ''pkg.js'')]
                      else Inl EngineError"
  have r: "rollup env0 config = Inr ?engine" for config
    by (simp add: env0_def)
  have pc: "process_cwd env0 = ''/p''"
    by (simp add: env0_def)
  have plan: "\<exists>plan. getConfigOutput ''/p'' (resolve_options env0 (inputOptions0\<lparr>in_format := g\<rparr>)) f w
                  = Inr plan \<and> oc_format plan = f"
    if "f \<notin> set prototype_keys" "f \<noteq> ''modern''" for f g w
  proof -
    let ?o = "resolve_options env0 (inputOptions0\<lparr>in_format := g\<rparr>)"
    have "opt_entries ?o \<noteq> [] \<or> \<not> opt_pkg_main ?o"
      by (simp add: resolved_entries_format example_entries)
    with that(1) obtain plan where p: "getConfigOutput ''/p'' ?o f w = Inr plan"
      using getConfigOutput_returns by blast
    with that(2) show ?thesis
      using getConfigOutput_plan(1) [OF p] by simp
  qed
  have sizes: "size_reports env0 options [(Some ''exports.f=f;'', ''pkg.js'')] = Inr [''pkg.js'']"
    for options
    by (simp add: env0_def truthy_def)
  {
    let ?io = "inputOptions0\<lparr>in_format := Some ''bogus,cjs''\<rparr>"
    let ?o = "resolve_options env0 ?io"
    have sf: "sorted_formats ?o = Inr [''cjs'', ''bogus'']"
      by (simp add: sorted_formats_def resolved_fields array_sort_partition or_else_def truthy_def)
    obtain p1 where p1: "getConfigOutput ''/p'' ?o ''cjs'' True = Inr p1" "oc_format p1 = ''cjs''"
      using plan [of "''cjs''" "Some ''bogus,cjs''" True] by (auto simp: prototype_keys_def)
    obtain p2 where p2: "getConfigOutput ''/p'' ?o ''bogus'' False = Inr p2" "oc_format p2 = ''bogus''"
      using plan [of "''bogus''" "Some ''bogus,cjs''" False] by (auto simp: prototype_keys_def)
    have "write_formats env0 ?engine ?o 0 [''cjs'', ''bogus''] = ([p1, p2], Inl EngineError)"
      by (simp add: pc p1 p2 sizes del: size_reports.simps)
    then have "microbundle env0 ?io = \<lparr>writes = [p1, p2], returned = Inl EngineError\<rparr>"
      unfolding microbundle_def Let_def sf by (simp add: r resolved_fields inputOptions0_def)
    with p1 p2
    have "map oc_format (writes (microbundle env0 ?io)) = [''cjs'', ''bogus'']"
      "returned (microbundle env0 ?io) = Inl EngineError"
      by simp_all
  }
  then show "map oc_format (writes (microbundle env0 (inputOptions0\<lparr>in_format := Some ''bogus,cjs''\<rparr>)))
     = [''cjs'', ''bogus'']"
    and "returned (microbundle env0 (inputOptions0\<lparr>in_format := Some ''bogus,cjs''\<rparr>))
     = Inl EngineError"
    by blast+
  {
    let ?io = "inputOptions0\<lparr>in_format := Some ''toString,cjs''\<rparr>"
    let ?o = "resolve_options env0 ?io"
    have sf: "sorted_formats ?o = Inr [''cjs'', ''toString'']"
      by (simp add: sorted_formats_def resolved_fields array_sort_partition or_else_def truthy_def)
    obtain p1 where p1: "getConfigOutput ''/p'' ?o ''cjs'' True = Inr p1" "oc_format p1 = ''cjs''"
      using plan [of "''cjs''" "Some ''toString,cjs''" True] by (auto simp: prototype_keys_def)
    have e: "opt_entries ?o = [''/p/src/index.js'']"
      by (simp add: resolved_entries_format example_entries)
    have m: "opt_pkg_main ?o"
      by (simp add: resolved_fields inputOptions0_def)
    have "getMain ''/p'' ?o ''/p/src/index.js'' ''toString'' = Inherited ''toString''"
      by (rule getMain_inherited [OF m]) (simp add: prototype_keys_def)
    then have p2: "getConfigOutput ''/p'' ?o ''toString'' False = Inl TypeError"
      by (simp add: getConfigOutput_def e)
    have "write_formats env0 ?engine ?o 0 [''cjs'', ''toString''] = ([p1], Inl TypeError)"
      by (simp add: pc p1 p2 sizes del: size_reports.simps)
    then have "microbundle env0 ?io = \<lparr>writes = [p1], returned = Inl TypeError\<rparr>"
      unfolding microbundle_def Let_def sf by (simp add: r resolved_fields inputOptions0_def)
    with p1
    have "map oc_format (writes (microbundle env0 ?io)) = [''cjs'']"
      "returned (microbundle env0 ?io) = Inl TypeError"
      by simp_all
  }
  then show "map oc_format (writes (microbundle env0 (inputOptions0\<lparr>in_format := Some ''toString,cjs''\<rparr>)))
     = [''cjs'']"
    and "returned (microbundle env0 (inputOptions0\<lparr>in_format := Some ''toString,cjs''\<rparr>))
     = Inl TypeError"
    by blast+
qed

section \<open>The external predicate\<close>

text \<open>
  Claim C3. The predicate compiled from the one specifier \<open>foo\<close> holds of \<open>foo\<close> and
  of \<open>foo/bar\<close>, and does not hold of \<open>foobar\<close> and \<open>food\<close>.
\<close>

theorem externals_foo:
  "externalTest [Str ''foo''] ''foo'' \<and> externalTest [Str ''foo''] ''foo/bar''
   \<and> \<not> externalTest [Str ''foo''] ''foobar'' \<and> \<not> externalTest [Str ''foo''] ''food''"
  by (simp add: externalTest_def externalPredicate_def escapeStringExternals_def Lit_def
      re_test_def re_exec_def)

section \<open>Aliases and externals\<close>

text \<open>
  Claim C10. In the configurations assembled from the options that \<open>microbundle\<close>
  resolves, the \<open>external\<close> function returns false for every module id that is the
  find-key of an alias, whatever the list of external specifiers holds. (\<open>createConfig\<close>
  returns a configuration unless \<open>pkg-main\<close> is on and the format names a member of
  \<open>Object.prototype\<close>.)
\<close>

theorem alias_not_external:
  assumes "moduleId \<in> set (aliasIds e (resolve_options e inputOptions))"
  shows "\<not> ic_external (getConfigInput e (resolve_options e inputOptions)) moduleId
         \<and> (case createConfig e (resolve_options e inputOptions) entry format writeMeta of
               Inr st \<Rightarrow> \<not> st_external st moduleId
             | Inl err \<Rightarrow> opt_pkg_main (resolve_options e inputOptions)
                           \<and> format \<in> set prototype_keys)"
proof -
  have "\<not> ic_external (getConfigInput e (resolve_options e inputOptions)) moduleId"
    using assms by (simp add: getConfigInput_def is_external_def Let_def resolved_fields)
  moreover have "\<not> st_external st moduleId"
    if "createConfig e (resolve_options e inputOptions) entry format writeMeta = Inr st" for st
    using assms by (simp add: createConfig_returns(1) [OF that] is_external_def resolved_fields)
  ultimately show ?thesis
    by (auto split: sum.splits dest: createConfig_throws)
qed

lemma example_alias: "aliasIds env0 (resolve_options env0 inputOptions0) = [''lodash-es'']"
  by (simp add: aliasIds_def resolved_fields inputOptions0_def env0_def truthy_def)

theorem alias_not_external_witness:
  "''lodash-es'' \<in> set (aliasIds env0 (resolve_options env0 inputOptions0))
   \<and> externalTest (builtins @ [Str ''lodash-es'']) ''lodash-es''
   \<and> \<not> ic_external (getConfigInput env0 (resolve_options env0 inputOptions0)) ''lodash-es''"
proof -
  have a: "''lodash-es'' \<in> set (aliasIds env0 (resolve_options env0 inputOptions0))"
    by (simp add: example_alias)
  have b: "externalTest (builtins @ [Str ''lodash-es'']) ''lodash-es''"
    by (simp add: externalTest_def externalPredicate_def escapeStringExternals_def Lit_def
        re_test_def re_exec_def builtins_def)
  from alias_not_external [OF a] a b show ?thesis by simp
qed

section \<open>Loading the name cache\<close>

text \<open>
  Claim C9. When the name-cache file (at the path \<open>getNameCachePath\<close> gives) is missing or
  malformed, the exception raised in \<open>loadNameCache\<close> is caught, the state is left as it
  was, and the name cache handed to the minifier is \<open>null\<close>. (\<open>createConfig\<close> returns a
  configuration unless \<open>pkg-main\<close> is on and the format names a member of
  \<open>Object.prototype\<close>, which has nothing to do with the name cache.)
\<close>

theorem name_cache_failure:
  assumes "readJson e (getNameCachePath e options) = Missing
           \<or> readJson e (getNameCachePath e options) = Malformed"
  shows "snd (loadNameCache_body e options st) \<noteq> None
         \<and> loadNameCache e options st = st
         \<and> snd (minify_setup e options) = JNull
         \<and> (case createConfig e options entry format writeMeta of
               Inr st \<Rightarrow> map_option t_nameCache (st_terser st)
                           = (if opt_compress options then Some JNull else None)
             | Inl err \<Rightarrow> opt_pkg_main options \<and> format \<in> set prototype_keys)"
proof -
  have body: "loadNameCache_body e options s = (s, Some FileError)
              \<or> loadNameCache_body e options s = (s, Some SyntaxError)" for s
    using assms by (auto simp: loadNameCache_body_def)
  have load: "loadNameCache e options s = s" for s
    using body [of s] by (auto simp: loadNameCache_def)
  have "snd (loadNameCache_body e options st) \<noteq> None"
    using body [of st] by auto
  moreover have m: "snd (minify_setup e options) = JNull"
    by (simp add: minify_setup_def Let_def load)
  moreover have "map_option t_nameCache (st_terser st)
                   = (if opt_compress options then Some JNull else None)"
    if "createConfig e options entry format writeMeta = Inr st" for st
    by (simp add: createConfig_returns(3) [OF that] m)
  ultimately show ?thesis
    by (auto simp: load split: sum.splits dest: createConfig_throws)
qed

theorem name_cache_failure_witness:
  "readJson env0 (getNameCachePath env0 options0) = Missing
   \<and> snd (minify_setup env0 options0) = JNull
   \<and> (case createConfig env0 options0 ''/p/src/index.js'' ''cjs'' True of
         Inr st \<Rightarrow> map_option t_nameCache (st_terser st)
       | Inl err \<Rightarrow> None) = Some JNull"
proof -
  have a: "readJson env0 (getNameCachePath env0 options0) = Missing"
    by (simp add: env0_def)
  have c: "opt_compress options0" by (simp add: options0_def)
  have k: "''cjs'' \<notin> set prototype_keys" by (simp add: prototype_keys_def)
  from name_cache_failure [OF disjI1 [OF a], where st = undefined
      and entry = "''/p/src/index.js''" and format = "''cjs''" and writeMeta = True]
  show ?thesis using a c k by (auto split: sum.splits)
qed

section \<open>Entry resolution\<close>

text \<open>
  \<open>jsOrTs\<close> returns a path, which is never empty, so the operand after it in the chain of
  \<open>getInput\<close> is never reached: the manifest's \<open>module\<close> field has no effect at all.
\<close>

lemma root_index_truthy: "or_else (Some (jsOrTs e cwd ''index'')) module = Some (jsOrTs e cwd ''index'')"
  by (simp add: or_else_def truthy_def jsOrTs_def Let_def resolve_nonempty)

lemma getInput_ignores_module:
  "getInput e entries cwd source module = getInput e entries cwd source module'"
  by (simp add: getInput_def root_index_truthy)

text \<open>
  Claim C5, at a project that has no entries argument, no \<open>source\<close>, no \<open>src\<close> directory
  and no \<open>index\<close> file, and whose manifest names the existing file \<open>lib/main.js\<close> as
  \<open>module\<close>: the glob of that candidate is the file, and \<open>getInput\<close> returns no entry.
\<close>

theorem module_fallback_unreachable:
  "glob_of env1 (Some ''lib/main.js'') = [''lib/main.js'']
   \<and> getInput env1 [] ''/p'' None (Some ''lib/main.js'') = []"
proof -
  have 1: "glob_of env1 (Some ''lib/main.js'') = [''lib/main.js'']"
    by (simp add: glob_of_def truthy_def env1_def env0_def)
  have 2: "getInput env1 [] ''/p'' None (Some ''lib/main.js'') = []"
    by code_simp
  from 1 2 show ?thesis by simp
qed

section \<open>Watch mode\<close>

lemma watch_no_watchers:
  assumes "in_watch inputOptions" and "or_else (in_format inputOptions) (in_formats inputOptions) = Some fs"
    and "rollup e (getConfigInput e (resolve_options e inputOptions)) = Inr bundle"
  shows "microbundle e inputOptions = \<lparr>writes = [], returned = Inr (Watching [])\<rparr>"
  using assms by (simp add: microbundle_def sorted_formats_def resolved_fields doWatch_def Let_def)

lemma resolved_entries_watch:
  "opt_entries (resolve_options e (io\<lparr>in_watch := w\<rparr>)) = opt_entries (resolve_options e io)"
  by (simp add: resolve_options_def Let_def case_prod_beta)

text \<open>
  Claim C8, at the example project in watch mode: one entry is resolved, the engine
  makes a bundle, and the handle that \<open>microbundle\<close> returns holds no watcher.
\<close>

theorem watch_without_watchers:
  "opt_entries (resolve_options env0 (inputOptions0\<lparr>in_watch := True\<rparr>)) = [''/p/src/index.js'']
   \<and> returned (microbundle env0 (inputOptions0\<lparr>in_watch := True\<rparr>)) = Inr (Watching [])"
proof -
  have "or_else (in_format (inputOptions0\<lparr>in_watch := True\<rparr>))
          (in_formats (inputOptions0\<lparr>in_watch := True\<rparr>)) = Some ''es,cjs,umd''"
    by (simp add: inputOptions0_def or_else_def truthy_def)
  moreover have "in_watch (inputOptions0\<lparr>in_watch := True\<rparr>)"
    by simp
  moreover have "\<exists>bundle. rollup env0 (getConfigInput env0
                    (resolve_options env0 (inputOptions0\<lparr>in_watch := True\<rparr>))) = Inr bundle"
    by (simp add: env0_def)
  ultimately have "microbundle env0 (inputOptions0\<lparr>in_watch := True\<rparr>)
                     = \<lparr>writes = [], returned = Inr (Watching [])\<rparr>"
    using watch_no_watchers by blast
  then show ?thesis
    by (simp add: resolved_entries_watch example_entries)
qed

section \<open>Global names\<close>

lemma map_of_object_assign:
  "distinct (map fst src) \<Longrightarrow>
     map_of (object_assign target src) x =
       (case map_of src x of Some v \<Rightarrow> Some v | None \<Rightarrow> map_of target x)"
  unfolding object_assign_def
proof (induction src arbitrary: target)
  case Nil
  show ?case by simp
next
  case (Cons p src)
  obtain k v where p: "p = (k, v)" by (cases p)
  have "map_of src k = None"
    using Cons.prems p by (simp add: map_of_eq_None_iff)
  with Cons p show ?case
    by (auto simp: map_of_assign split: option.splits)
qed

lemma derive_global_lookup:
  "map_of (derive_global x globals) k =
     (if ext_name x = k \<and> re_test re_identifier k then Some (camelCase k) else map_of globals k)"
  by (simp add: derive_global_def Let_def map_of_assign)

lemma derived_lookup:
  "map_of (fold derive_global external globals) k =
     (if (\<exists>x \<in> set external. ext_name x = k) \<and> re_test re_identifier k
      then Some (camelCase k) else map_of globals k)"
  by (induction external arbitrary: globals) (auto simp: derive_global_lookup)

lemma derived_hit:
  "x \<in> set external \<Longrightarrow> ext_name x = k \<Longrightarrow> re_test re_identifier k
     \<Longrightarrow> map_of (fold derive_global external globals) k = Some (camelCase k)"
  unfolding derived_lookup by auto

lemma lodash_identifier: "re_test re_identifier ''lodash-es''"
  by code_simp

lemma lodash_camelCase: "camelCase ''lodash-es'' = ''lodashEs''"
  by code_simp

text \<open>
  Claim C7. When \<open>lodash-es\<close> is among the external specifiers that \<open>parseExternals\<close>
  returns, the globals of the configuration map it to \<open>lodashEs\<close> as long as the user
  gives no globals mapping (none, or the word \<open>none\<close>); and every key of a mapping the
  user gives has, in the globals, exactly the value the user gave it. (\<open>createConfig\<close>
  returns a configuration unless \<open>pkg-main\<close> is on and the format names a member of
  \<open>Object.prototype\<close>.)
\<close>

theorem globals_lodash_es:
  assumes "Str ''lodash-es'' \<in> set (parseExternals e (opt_external options)
             (pkg_peerDependencies (opt_pkg options)) (pkg_dependencies (opt_pkg options)))"
  shows "case createConfig e options entry format writeMeta of
           Inl err \<Rightarrow> opt_pkg_main options \<and> format \<in> set prototype_keys
         | Inr st \<Rightarrow>
             (\<not> truthy (opt_globals options) \<or> opt_globals options = Some ''none'' \<longrightarrow>
                map_option (\<lambda>g. map_of g ''lodash-es'') (oc_globals (st_outputOptions st))
                = Some (Some ''lodashEs''))
             \<and> (\<forall>g k v. opt_globals options = Some g \<and> g \<noteq> [] \<and> g \<noteq> ''none''
                   \<and> distinct (map fst (parseMappingArgument e g))
                   \<and> map_of (parseMappingArgument e g) k = Some v \<longrightarrow>
                map_option (\<lambda>g. map_of g k) (oc_globals (st_outputOptions st))
                = Some (Some v))"
proof -
  let ?external = "builtins @ map Str (filter (\<lambda>x. x \<noteq> entry) (opt_entries options))
                     @ parseExternals e (opt_external options)
                         (pkg_peerDependencies (opt_pkg options)) (pkg_dependencies (opt_pkg options))"
  have "Str ''lodash-es'' \<in> set ?external"
    using assms by simp
  then have "map_of (fold derive_global ?external []) ''lodash-es'' = Some (camelCase ''lodash-es'')"
    by (rule derived_hit) (simp_all add: ext_name_def lodash_identifier)
  then have auto_derived: "map_of (fold derive_global ?external []) ''lodash-es'' = Some ''lodashEs''"
    by (simp only: lodash_camelCase)
  have 1: "map_of (derive_globals e options ?external) ''lodash-es'' = Some ''lodashEs''"
    if "\<not> truthy (opt_globals options) \<or> opt_globals options = Some ''none''"
    using that auto_derived by (auto simp: derive_globals_def Let_def)
  have 2: "map_of (derive_globals e options ?external) k = Some v"
    if "opt_globals options = Some g" "g \<noteq> []" "g \<noteq> ''none''"
      "distinct (map fst (parseMappingArgument e g))" "map_of (parseMappingArgument e g) k = Some v"
    for g k v
    using that by (simp add: derive_globals_def Let_def truthy_def map_of_object_assign)
  show ?thesis
  proof (cases "createConfig e options entry format writeMeta")
    case (Inl err)
    then show ?thesis by (simp add: createConfig_throws)
  next
    case (Inr st)
    have g: "oc_globals (st_outputOptions st) = Some (derive_globals e options ?external)"
      by (rule createConfig_returns(2) [OF Inr])
    show ?thesis
      unfolding Inr sum.case g
    proof (intro conjI impI allI)
      assume "\<not> truthy (opt_globals options) \<or> opt_globals options = Some ''none''"
      then show "map_option (\<lambda>g. map_of g ''lodash-es'') (Some (derive_globals e options ?external))
                   = Some (Some ''lodashEs'')"
        using 1 by simp
    next
      fix g k v
      assume "opt_globals options = Some g \<and> g \<noteq> [] \<and> g \<noteq> ''none''
                 \<and> distinct (map fst (parseMappingArgument e g))
                 \<and> map_of (parseMappingArgument e g) k = Some v"
      then have "map_of (derive_globals e options ?external) k = Some v"
        using 2 [of g k v] by blast
      then show "map_option (\<lambda>g. map_of g k) (Some (derive_globals e options ?external))
                   = Some (Some v)"
        by simp
    qed
  qed
qed

theorem globals_lodash_es_witness:
  "(case createConfig env0 options0 ''/p/src/index.js'' ''umd'' True of
      Inr st \<Rightarrow> map_option (\<lambda>g. map_of g ''lodash-es'') (oc_globals (st_outputOptions st))
    | Inl err \<Rightarrow> None)
     = Some (Some ''lodashEs'')
   \<and> (case createConfig env0 (options0\<lparr>opt_globals := Some ''lodash-es=_''\<rparr>)
              ''/p/src/index.js'' ''umd'' True of
      Inr st \<Rightarrow> map_option (\<lambda>g. map_of g ''lodash-es'') (oc_globals (st_outputOptions st))
    | Inl err \<Rightarrow> None)
     = Some (Some ''_'')"
proof -
  have a: "Str ''lodash-es'' \<in> set (parseExternals env0 (opt_external o')
             (pkg_peerDependencies (opt_pkg o')) (pkg_dependencies (opt_pkg o')))"
    if "opt_pkg o' = pkg0" for o' :: options
    using that by (simp add: env0_def pkg0_def)
  have p0: "opt_pkg options0 = pkg0" and p1: "opt_pkg (options0\<lparr>opt_globals := Some ''lodash-es=_''\<rparr>) = pkg0"
    by (simp_all add: options0_def)
  have u: "\<not> truthy (opt_globals options0)"
    by (simp add: options0_def truthy_def)
  have m: "parseMappingArgument env0 ''lodash-es=_'' = [(''lodash-es'', ''_'')]"
    by (simp add: env0_def)
  have k: "''umd'' \<notin> set prototype_keys"
    by (simp add: prototype_keys_def)
  from globals_lodash_es [OF a [OF p0], where entry = "''/p/src/index.js''"
      and format = "''umd''" and writeMeta = True] u k
  have 1: "(case createConfig env0 options0 ''/p/src/index.js'' ''umd'' True of
      Inr st \<Rightarrow> map_option (\<lambda>g. map_of g ''lodash-es'') (oc_globals (st_outputOptions st))
    | Inl err \<Rightarrow> None)
     = Some (Some ''lodashEs'')"
    by (auto split: sum.splits)
  have g: "opt_globals (options0\<lparr>opt_globals := Some ''lodash-es=_''\<rparr>) = Some ''lodash-es=_''"
    "''lodash-es=_'' \<noteq> []" "''lodash-es=_'' \<noteq> ''none''"
    "distinct (map fst (parseMappingArgument env0 ''lodash-es=_''))"
    "map_of (parseMappingArgument env0 ''lodash-es=_'') ''lodash-es'' = Some ''_''"
    by (simp_all add: m)
  from globals_lodash_es [OF a [OF p1], where entry = "''/p/src/index.js''"
      and format = "''umd''" and writeMeta = True] k g
  have 2: "(case createConfig env0 (options0\<lparr>opt_globals := Some ''lodash-es=_''\<rparr>)
              ''/p/src/index.js'' ''umd'' True of
      Inr st \<Rightarrow> map_option (\<lambda>g. map_of g ''lodash-es'') (oc_globals (st_outputOptions st))
    | Inl err \<Rightarrow> None)
     = Some (Some ''_'')"
    by (auto split: sum.splits)
  from 1 2 show ?thesis by simp
qed

section \<open>Output paths\<close>

subsection \<open>Splitting and joining\<close>

lemma split_on_nonempty: "split_on c s \<noteq> []"
  by (induction s) (auto split: list.splits)

lemma split_on_free: "c \<notin> set s \<Longrightarrow> split_on c s = [s]"
  by (induction s) auto

lemma split_on_append:
  "split_on c (xs @ ys)
     = butlast (split_on c xs) @ [last (split_on c xs) @ hd (split_on c ys)] @ tl (split_on c ys)"
proof (induction xs)
  case Nil
  then show ?case using split_on_nonempty [of c ys] by simp
next
  case (Cons x xs)
  obtain w ws where w: "split_on c xs = w # ws"
    using split_on_nonempty [of c xs] by (cases "split_on c xs") auto
  obtain v vs where v: "split_on c (xs @ ys) = v # vs"
    using split_on_nonempty [of c "xs @ ys"] by (cases "split_on c (xs @ ys)") auto
  from Cons w v show ?case
    by (cases ws) (auto split: if_splits)
qed

lemma split_on_snoc_sep: "split_on c (t @ [c]) = split_on c t @ [[]]"
  using split_on_append [of c t "[c]"] split_on_nonempty [of c t] by simp

lemma join_split: "join [c] (split_on c s) = s"
proof (induction s)
  case Nil
  show ?case by simp
next
  case (Cons x s)
  obtain w ws where w: "split_on c s = w # ws"
    using split_on_nonempty [of c s] by (cases "split_on c s") auto
  with Cons show ?case by (cases ws) auto
qed

lemma split_segments_free: "w \<in> set (split_on c s) \<Longrightarrow> c \<notin> set w"
proof (induction s arbitrary: w)
  case Nil
  then show ?case by simp
next
  case (Cons x s)
  obtain v vs where v: "split_on c s = v # vs"
    using split_on_nonempty [of c s] by (cases "split_on c s") auto
  with Cons show ?case by (auto split: if_splits)
qed

lemma split_join:
  "segs \<noteq> [] \<Longrightarrow> \<forall>w \<in> set segs. c \<notin> set w \<Longrightarrow> split_on c (join [c] segs) = segs"
proof (induction "[c]" segs rule: join.induct)
  case 1
  then show ?case by simp
next
  case (2 x)
  then show ?case by (simp add: split_on_free)
next
  case (3 x y r)
  have "split_on c (x @ [c] @ join [c] (y # r)) = [x] @ split_on c (join [c] (y # r))"
    using 3(3) split_on_append [of c "x @ [c]" "join [c] (y # r)"]
      split_on_nonempty [of c "join [c] (y # r)"]
    by (simp add: split_on_snoc_sep split_on_free)
  with 3 show ?case by simp
qed

subsection \<open>Normal paths\<close>

lemma normalizeString_append:
  "normalizeString f res (xs @ ys) = normalizeString f (normalizeString f res xs) ys"
  by (induction xs arbitrary: res) auto

lemma normalizeString_proper:
  "list_all proper_name ws \<Longrightarrow> normalizeString f res ws = res @ ws"
  by (induction ws arbitrary: res) (auto simp: proper_name_def)

lemma normalizeString_segments:
  "set (normalizeString False res xs) \<subseteq> set res \<union> {x \<in> set xs. proper_name x}"
proof (induction xs arbitrary: res)
  case Nil
  show ?case by simp
next
  case (Cons x xs)
  have b: "set (butlast res) \<subseteq> set res"
    by (auto dest: in_set_butlastD)
  show ?case
    using Cons [of res] Cons [of "butlast res"] Cons [of "res @ [x]"] b
    by (auto simp: proper_name_def)
qed

lemma resolve_loop_absolute:
  "pcwd \<noteq> [] \<Longrightarrow> hd pcwd = CHR ''/'' \<Longrightarrow> snd (resolve_loop (ps @ [pcwd]) acc)"
  by (induction ps arbitrary: acc) auto

text \<open>
  With an absolute working directory \<open>path.resolve\<close> returns a slash followed by names
  that are joined by slashes.
\<close>

lemma resolve_form:
  assumes "pcwd \<noteq> []" and "hd pcwd = CHR ''/''"
  shows "\<exists>segs. resolve pcwd paths = CHR ''/'' # join ''/'' segs
           \<and> list_all proper_name segs \<and> (\<forall>w \<in> set segs. CHR ''/'' \<notin> set w)"
proof -
  obtain rp ab where l: "resolve_loop (rev paths @ [pcwd]) [] = (rp, ab)"
    by (cases "resolve_loop (rev paths @ [pcwd]) []")
  have ab: "ab"
    using resolve_loop_absolute [OF assms, of "rev paths" "[]"] l by simp
  let ?segs = "normalizeString False [] (split_on CHR ''/'' rp)"
  have "set ?segs \<subseteq> {x \<in> set (split_on CHR ''/'' rp). proper_name x}"
    using normalizeString_segments [of "[]" "split_on CHR ''/'' rp"] by simp
  then have "list_all proper_name ?segs" "\<forall>w \<in> set ?segs. CHR ''/'' \<notin> set w"
    by (auto simp: list_all_iff dest: split_segments_free)
  moreover have "resolve pcwd paths = CHR ''/'' # join ''/'' ?segs"
    using ab by (simp add: resolve_def l)
  ultimately show ?thesis by blast
qed

text \<open>
  A path is in normal form when it is a slash followed by names that are joined by
  slashes; \<open>path.resolve\<close> returns such a path as it is, whatever comes before it.
\<close>

lemma resolve_normal:
  assumes "hd x = CHR ''/''" and "x \<noteq> []"
    and "list_all proper_name (split_on CHR ''/'' (tl x))"
  shows "resolve pcwd [d, x] = x"
proof -
  obtain t where x: "x = CHR ''/'' # t"
    using assms(1,2) by (cases x) auto
  have l: "resolve_loop (rev [d, x] @ [pcwd]) [] = (x @ ''/'', True)"
    by (simp add: x)
  have "split_on CHR ''/'' (x @ ''/'') = [] # split_on CHR ''/'' t @ [[]]"
    using split_on_snoc_sep [of "CHR ''/''" t] by (simp add: x)
  then have "normalizeString False [] (split_on CHR ''/'' (x @ ''/'')) = split_on CHR ''/'' t"
    using assms(3) by (simp add: x normalizeString_append normalizeString_proper)
  then show ?thesis
    unfolding resolve_def l by (simp add: join_split x)
qed

subsection \<open>The extension pattern\<close>

lemma scan_sound:
  "scan n r s i = Some (j, e) \<Longrightarrow> i \<le> j \<and> e \<in> set (ends r s j)"
proof (induction n arbitrary: i)
  case 0
  then show ?case by simp
next
  case (Suc n)
  then show ?case
    by (cases "ends r s i") (auto dest: Suc_leD)
qed

lemma ends_at_end:
  "e \<in> set (ends (Seq a (Seq b (Seq c Eol))) s j) \<Longrightarrow> e = length s"
  by (auto split: if_splits)

lemma format_extension_at_end:
  "e \<in> set (ends re_format_extension s j) \<Longrightarrow> e = length s"
  unfolding re_format_extension_def seqs.simps by (rule ends_at_end)

lemma format_extension_not_at_root: "ends re_format_extension (CHR ''/'' # t) 0 = []"
  unfolding re_format_extension_def seqs.simps Opt_def by simp

text \<open>
  Taking the extension off an absolute path leaves an initial part of the path, which is
  not empty.
\<close>

lemma strip_extension:
  "\<exists>i. re_replace re_format_extension (CHR ''/'' # t) (\<lambda>_. []) = take (Suc i) (CHR ''/'' # t)"
proof (cases "re_exec re_format_extension (CHR ''/'' # t)")
  case None
  then have "re_replace re_format_extension (CHR ''/'' # t) (\<lambda>_. [])
               = take (Suc (length t)) (CHR ''/'' # t)"
    by (simp add: re_replace_def)
  then show ?thesis by blast
next
  case (Some m)
  obtain j e where m: "m = (j, e)" by (cases m)
  have "scan (length (CHR ''/'' # t)) re_format_extension (CHR ''/'' # t) (Suc 0) = Some (j, e)"
    using Some m by (simp add: re_exec_def format_extension_not_at_root)
  from scan_sound [OF this] have j: "Suc 0 \<le> j" and e: "e = length (CHR ''/'' # t)"
    by (auto dest: format_extension_at_end)
  obtain i where i: "j = Suc i"
    using j by (cases j) auto
  have "re_replace re_format_extension (CHR ''/'' # t) (\<lambda>_. []) = take (Suc i) (CHR ''/'' # t)"
    unfolding re_replace_def Some m using e i by simp
  then show ?thesis by blast
qed

lemma suffix_of_free: "CHR ''/'' \<notin> set (suffix_of filename)"
proof -
  have b: "CHR ''/'' \<notin> set (basename filename)"
    by (auto simp: basename_def dest: set_takeWhileD)
  have "set (re_replace r s (\<lambda>_. [])) \<subseteq> set s" for r s
    by (auto simp: re_replace_def split: option.splits dest: in_set_takeD in_set_dropD)
  with b show ?thesis
    unfolding suffix_of_def by blast
qed

subsection \<open>The planned path\<close>

text \<open>
  With an absolute working directory, the path that \<open>replaceName\<close> makes from
  \<open>mainNoExtension\<close> is \<open>mainNoExtension\<close> followed by the suffix of the template, as
  long as the file name that this gives is a proper name: the directory of the template
  has no effect, because \<open>mainNoExtension\<close> is absolute.
\<close>

lemma planned_path:
  assumes "pcwd \<noteq> []" and "hd pcwd = CHR ''/''"
    and "proper_name (file_name (mainNoExtension pcwd options entry @ suffix_of filename))"
  shows "replaceName pcwd filename (mainNoExtension pcwd options entry)
           = mainNoExtension pcwd options entry @ suffix_of filename"
proof -
  let ?m = "mainNoExtension pcwd options entry"
  let ?s = "suffix_of filename"
  obtain paths where m: "?m = re_replace re_format_extension (resolve pcwd paths) (\<lambda>_. [])"
    by (auto simp: mainNoExtension_def Let_def)
  from resolve_form [OF assms(1,2), of paths] obtain segs where
    R: "resolve pcwd paths = CHR ''/'' # join ''/'' segs" and p: "list_all proper_name segs"
    and f: "\<forall>w \<in> set segs. CHR ''/'' \<notin> set w"
    by blast
  let ?t = "join ''/'' segs"
  from strip_extension [of ?t] obtain i where i: "?m = CHR ''/'' # take i ?t"
    unfolding m R by auto
  have dirs: "list_all proper_name (butlast (split_on CHR ''/'' ?t))"
  proof (cases "segs = []")
    case True
    then show ?thesis by simp
  next
    case False
    then have "split_on CHR ''/'' ?t = segs"
      using f by (rule split_join)
    with p show ?thesis
      by (auto simp: list_all_iff dest: in_set_butlastD)
  qed
  let ?A = "butlast (split_on CHR ''/'' (take i ?t))"
  let ?L = "last (split_on CHR ''/'' (take i ?t))"
  have "split_on CHR ''/'' ?t = split_on CHR ''/'' (take i ?t @ drop i ?t)"
    by simp
  also have "\<dots> = ?A @ [?L @ hd (split_on CHR ''/'' (drop i ?t))] @ tl (split_on CHR ''/'' (drop i ?t))"
    by (rule split_on_append)
  finally have "butlast (split_on CHR ''/'' ?t)
                  = ?A @ butlast ([?L @ hd (split_on CHR ''/'' (drop i ?t))]
                                  @ tl (split_on CHR ''/'' (drop i ?t)))"
    by (simp add: butlast_append)
  with dirs have A: "list_all proper_name ?A"
    by simp
  have sp: "split_on CHR ''/'' (take i ?t @ ?s) = ?A @ [?L @ ?s]"
    using split_on_append [of "CHR ''/''" "take i ?t" ?s]
    by (simp add: split_on_free [OF suffix_of_free])
  have "file_name (?m @ ?s) = ?L @ ?s"
    unfolding i file_name_def using sp by simp
  with assms(3) have "proper_name (?L @ ?s)"
    by simp
  with A sp have "list_all proper_name (split_on CHR ''/'' (tl (?m @ ?s)))"
    unfolding i by simp
  moreover have "hd (?m @ ?s) = CHR ''/''" "?m @ ?s \<noteq> []"
    unfolding i by simp_all
  ultimately show ?thesis
    unfolding replaceName_def by (intro resolve_normal)
qed

text \<open>
  Claim C1, as amended. The working directory of the process is absolute, the formats are
  among \<open>cjs\<close>, \<open>es\<close>, \<open>umd\<close> and \<open>modern\<close>, and the file names that are planned are
  proper names. Then \<open>getMain\<close> gives an entry and a format the path \<open>options.output\<close>
  without \<open>pkg-main\<close>, and with \<open>pkg-main\<close> the text \<open>mainNoExtension\<close> of the entry
  followed by the suffix of the format's template. So two pairs of an entry and a format
  get the same path exactly when \<open>pkg-main\<close> is off or these texts are the same: with
  \<open>pkg-main\<close>, two formats of one entry get two paths exactly when the suffixes of their
  templates differ, and two entries get two paths for one format exactly when their
  \<open>mainNoExtension\<close> differ.
\<close>

theorem planned_paths_distinct:
  assumes "pcwd \<noteq> []" and "hd pcwd = CHR ''/''"
    and "f1 \<in> {''cjs'', ''es'', ''umd'', ''modern''}"
    and "f2 \<in> {''cjs'', ''es'', ''umd'', ''modern''}"
    and "proper_name (file_name (mainNoExtension pcwd options entry1
                                   @ suffix_of (template (opt_pkg options) f1)))"
    and "proper_name (file_name (mainNoExtension pcwd options entry2
                                   @ suffix_of (template (opt_pkg options) f2)))"
  shows "getMain pcwd options entry1 f1
           = Own (if opt_pkg_main options
                  then mainNoExtension pcwd options entry1
                         @ suffix_of (template (opt_pkg options) f1)
                  else opt_output options)
         \<and> (getMain pcwd options entry1 f1 = getMain pcwd options entry2 f2)
             = (\<not> opt_pkg_main options
                \<or> mainNoExtension pcwd options entry1 @ suffix_of (template (opt_pkg options) f1)
                  = mainNoExtension pcwd options entry2 @ suffix_of (template (opt_pkg options) f2))"
proof (cases "opt_pkg_main options")
  case False
  then show ?thesis by (simp add: getMain_off)
next
  case True
  have 1: "getMain pcwd options entry1 f1
             = Own (mainNoExtension pcwd options entry1 @ suffix_of (template (opt_pkg options) f1))"
    using assms(3) by (subst getMain_four [OF True]) (auto simp: planned_path [OF assms(1,2,5)])
  have 2: "getMain pcwd options entry2 f2
             = Own (mainNoExtension pcwd options entry2 @ suffix_of (template (opt_pkg options) f2))"
    using assms(4) by (subst getMain_four [OF True]) (auto simp: planned_path [OF assms(1,2,6)])
  from True show ?thesis
    unfolding 1 2 by simp
qed

lemma example_plan_parts:
  "opt_pkg_main options1"
  "mainNoExtension ''/p'' options1 ''/p/src/index.js'' = ''/p/dist/pkg''"
  "mainNoExtension ''/p'' options1 ''/p/src/cli.js'' = ''/p/dist/cli''"
  "suffix_of (template (opt_pkg options1) ''cjs'') = ''.js''"
  "suffix_of (template (opt_pkg options1) ''es'') = ''.module.js''"
  "proper_name (file_name (''/p/dist/pkg'' @ ''.js''))"
  "proper_name (file_name (''/p/dist/pkg'' @ ''.module.js''))"
  "proper_name (file_name (''/p/dist/cli'' @ ''.js''))"
  by code_simp+

theorem planned_paths_distinct_witness:
  "getMain ''/p'' options1 ''/p/src/index.js'' ''cjs'' = Own ''/p/dist/pkg.js''
   \<and> getMain ''/p'' options1 ''/p/src/index.js'' ''es'' = Own ''/p/dist/pkg.module.js''
   \<and> getMain ''/p'' options1 ''/p/src/cli.js'' ''cjs'' = Own ''/p/dist/cli.js''
   \<and> getMain ''/p'' options1 ''/p/src/index.js'' ''cjs''
       \<noteq> getMain ''/p'' options1 ''/p/src/index.js'' ''es''
   \<and> getMain ''/p'' options1 ''/p/src/index.js'' ''cjs''
       \<noteq> getMain ''/p'' options1 ''/p/src/cli.js'' ''cjs''"
proof -
  note p = example_plan_parts
  have a: "''/p'' \<noteq> []" "hd ''/p'' = CHR ''/''"
    and f: "''cjs'' \<in> {''cjs'', ''es'', ''umd'', ''modern''}"
      "''es'' \<in> {''cjs'', ''es'', ''umd'', ''modern''}"
    by simp_all
  have n1: "proper_name (file_name (mainNoExtension ''/p'' options1 ''/p/src/index.js''
              @ suffix_of (template (opt_pkg options1) ''cjs'')))"
    and n2: "proper_name (file_name (mainNoExtension ''/p'' options1 ''/p/src/index.js''
              @ suffix_of (template (opt_pkg options1) ''es'')))"
    and n3: "proper_name (file_name (mainNoExtension ''/p'' options1 ''/p/src/cli.js''
              @ suffix_of (template (opt_pkg options1) ''cjs'')))"
    unfolding p(2-5) by (rule p(6), rule p(7), rule p(8))
  note t1 = planned_paths_distinct [OF a f(1) f(2) n1 n2, unfolded p(2-5)]
  note t2 = planned_paths_distinct [OF a f(2) f(1) n2 n1, unfolded p(2-5)]
  note t3 = planned_paths_distinct [OF a f(1) f(1) n3 n1, unfolded p(2-5)]
  have 1: "getMain ''/p'' options1 ''/p/src/index.js'' ''cjs'' = Own ''/p/dist/pkg.js''"
    using t1 [THEN conjunct1] p(1) by simp
  have d1: "getMain ''/p'' options1 ''/p/src/index.js'' ''cjs''
             \<noteq> getMain ''/p'' options1 ''/p/src/index.js'' ''es''"
    using t1 [THEN conjunct2] p(1) by simp
  have 2: "getMain ''/p'' options1 ''/p/src/index.js'' ''es'' = Own ''/p/dist/pkg.module.js''"
    using t2 [THEN conjunct1] p(1) by simp
  have 3: "getMain ''/p'' options1 ''/p/src/cli.js'' ''cjs'' = Own ''/p/dist/cli.js''"
    using t3 [THEN conjunct1] p(1) by simp
  have d2: "getMain ''/p'' options1 ''/p/src/cli.js'' ''cjs''
             \<noteq> getMain ''/p'' options1 ''/p/src/index.js'' ''cjs''"
    using t3 [THEN conjunct2] p(1) by simp
  from 1 2 3 d1 d2 show ?thesis by metis
qed

text \<open>
  Claim C1 as stated fails: without \<open>pkg-main\<close> the \<open>cjs\<close> and \<open>es\<close> outputs are both
  \<open>options.output\<close>; with \<open>pkg-main\<close> and the manifest field \<open>module\<close> set to
  \<open>dist/index.js\<close>, whose suffix is that of the \<open>cjs\<close> template, they are both
  \<open>/p/dist/pkg.js\<close>; and the entries \<open>/p/src/cli.js\<close> and \<open>/p/lib/cli.js\<close>, which have one
  \<open>mainNoExtension\<close>, get one \<open>cjs\<close> path.
\<close>

theorem outputs_collide:
  "getMain ''/p'' (options0\<lparr>opt_pkg_main := False\<rparr>) ''/p/src/index.js'' ''cjs''
     = getMain ''/p'' (options0\<lparr>opt_pkg_main := False\<rparr>) ''/p/src/index.js'' ''es''
   \<and> getMain ''/p'' (options0\<lparr>opt_pkg := pkg0\<lparr>pkg_module := Some ''dist/index.js''\<rparr>\<rparr>)
         ''/p/src/index.js'' ''cjs''
     = getMain ''/p'' (options0\<lparr>opt_pkg := pkg0\<lparr>pkg_module := Some ''dist/index.js''\<rparr>\<rparr>)
         ''/p/src/index.js'' ''es''
   \<and> getMain ''/p'' options0 ''/p/src/cli.js'' ''cjs''
     = getMain ''/p'' options0 ''/p/lib/cli.js'' ''cjs''"
proof -
  have 1: "getMain ''/p'' (options0\<lparr>opt_pkg_main := False\<rparr>) ''/p/src/index.js'' ''cjs''
     = getMain ''/p'' (options0\<lparr>opt_pkg_main := False\<rparr>) ''/p/src/index.js'' ''es''"
    by (simp add: getMain_off)
  have 2: "getMain ''/p'' (options0\<lparr>opt_pkg := pkg0\<lparr>pkg_module := Some ''dist/index.js''\<rparr>\<rparr>)
         ''/p/src/index.js'' ''cjs''
     = getMain ''/p'' (options0\<lparr>opt_pkg := pkg0\<lparr>pkg_module := Some ''dist/index.js''\<rparr>\<rparr>)
         ''/p/src/index.js'' ''es''"
    by code_simp
  have 3: "getMain ''/p'' options0 ''/p/src/cli.js'' ''cjs''
     = getMain ''/p'' options0 ''/p/lib/cli.js'' ''cjs''"
    by code_simp
  from 1 2 3 show ?thesis by simp
qed

text \<open>
  The files that the build writes are another matter. \<open>getConfigOutput\<close> keeps the
  directory of the path that \<open>getMain\<close> plans and names every file \<open>[name].js\<close>, where
  the name is the key of the entry in the input options; so the plans for \<open>cjs\<close> and \<open>es\<close>
  name one file, although \<open>getMain\<close> plans two.
\<close>

lemma example_written_files:
  "ic_input (getConfigInput env0 options1) = [(''pkg'', ''/p/src/index.js'')]"
  "getConfigOutput ''/p'' options1 ''cjs'' True = Inr plan
     \<Longrightarrow> oc_dir plan = ''/p/dist'' \<and> oc_entryFileNames plan = ''[name].js''"
  "getConfigOutput ''/p'' options1 ''es'' True = Inr plan
     \<Longrightarrow> oc_dir plan = ''/p/dist'' \<and> oc_entryFileNames plan = ''[name].js''"
proof -
  have e: "opt_entries options1 = [''/p/src/index.js'']" "opt_cwd options1 = ''/p''"
    by (simp_all add: options1_def options0_def)
  have m: "getMain ''/p'' options1 ''/p/src/index.js'' ''cjs'' = Own ''/p/dist/pkg.js''"
    "getMain ''/p'' options1 ''/p/src/index.js'' ''es'' = Own ''/p/dist/pkg.module.js''"
    by code_simp+
  have d: "dirname (resolve ''/p'' [''/p'', ''/p/dist/pkg.js'']) = ''/p/dist''"
    "dirname (resolve ''/p'' [''/p'', ''/p/dist/pkg.module.js'']) = ''/p/dist''"
    "re_replace (Lit ''.js'') (basename ''/p/dist/pkg.js'') (\<lambda>_. []) = ''pkg''"
    by code_simp+
  show "ic_input (getConfigInput env0 options1) = [(''pkg'', ''/p/src/index.js'')]"
    by (simp add: getConfigInput_def Let_def e cjsMain_def m d env0_def)
  show "oc_dir plan = ''/p/dist'' \<and> oc_entryFileNames plan = ''[name].js''"
    if "getConfigOutput ''/p'' options1 ''cjs'' True = Inr plan"
    using that by (auto simp: getConfigOutput_def Let_def e m d)
  show "oc_dir plan = ''/p/dist'' \<and> oc_entryFileNames plan = ''[name].js''"
    if "getConfigOutput ''/p'' options1 ''es'' True = Inr plan"
    using that by (auto simp: getConfigOutput_def Let_def e m d)
qed

section \<open>The template of the \<open>es\<close> format\<close>

text \<open>
  Claim C6, as amended. With \<open>pkg-main\<close> on and a manifest whose \<open>module\<close> field is a
  string that is not empty, the \<open>es\<close> output is named after \<open>jsnext:main\<close>, or the
  default \<open>x.esm.js\<close>, when \<open>module\<close> matches \<open>src/\<close>, and after \<open>module\<close> itself when
  it does not.
\<close>

theorem es_template_choice:
  assumes "opt_pkg_main options"
    and "pkg_module (opt_pkg options) = Some m" and "m \<noteq> []"
  shows "getMain pcwd options entry ''es'' =
           Own (replaceName pcwd
                  (if re_test re_src m
                   then or_default (pkg_jsnext_main (opt_pkg options)) ''x.esm.js''
                   else m)
                  (mainNoExtension pcwd options entry))"
  using assms by (simp add: getMain_four template_def truthy_def)

lemma example_es_templates:
  "re_test re_src ''src/index.js'' = True"
  "re_test re_src ''dist/foo.module.js'' = False"
  "mainNoExtension ''/p'' (options0\<lparr>opt_pkg := pkg0\<lparr>pkg_module := Some ''src/index.js''\<rparr>\<rparr>)
     ''/p/src/index.js'' = ''/p/dist/pkg''"
  "mainNoExtension ''/p'' (options0\<lparr>opt_pkg := pkg0\<lparr>pkg_module := Some ''dist/foo.module.js''\<rparr>\<rparr>)
     ''/p/src/index.js'' = ''/p/dist/pkg''"
  "mainNoExtension ''/p''
     (options0\<lparr>opt_pkg := pkg0\<lparr>pkg_module := Some ''dist/foo.module.js''\<rparr>, opt_pkg_main := False\<rparr>)
     ''/p/src/index.js'' = ''/p/dist/pkg''"
  "replaceName ''/p'' ''x.esm.js'' ''/p/dist/pkg'' = ''/p/dist/pkg.esm.js''"
  "replaceName ''/p'' ''dist/foo.module.js'' ''/p/dist/pkg'' = ''/p/dist/pkg.module.js''"
  by code_simp+

theorem es_template_choice_witness:
  "getMain ''/p'' (options0\<lparr>opt_pkg := pkg0\<lparr>pkg_module := Some ''src/index.js''\<rparr>\<rparr>)
     ''/p/src/index.js'' ''es'' = Own ''/p/dist/pkg.esm.js''
   \<and> getMain ''/p'' (options0\<lparr>opt_pkg := pkg0\<lparr>pkg_module := Some ''dist/foo.module.js''\<rparr>\<rparr>)
     ''/p/src/index.js'' ''es'' = Own ''/p/dist/pkg.module.js''"
proof -
  let ?a = "options0\<lparr>opt_pkg := pkg0\<lparr>pkg_module := Some ''src/index.js''\<rparr>\<rparr>"
  let ?b = "options0\<lparr>opt_pkg := pkg0\<lparr>pkg_module := Some ''dist/foo.module.js''\<rparr>\<rparr>"
  have a: "opt_pkg_main ?a" "pkg_module (opt_pkg ?a) = Some ''src/index.js''"
    "pkg_jsnext_main (opt_pkg ?a) = None"
    by (simp_all add: options0_def pkg0_def)
  have b: "opt_pkg_main ?b" "pkg_module (opt_pkg ?b) = Some ''dist/foo.module.js''"
    by (simp_all add: options0_def pkg0_def)
  have 1: "getMain ''/p'' ?a ''/p/src/index.js'' ''es'' = Own ''/p/dist/pkg.esm.js''"
    unfolding es_template_choice [OF a(1,2), of "''/p''" "''/p/src/index.js''", simplified]
      example_es_templates a(3)
    by (simp add: or_default_def example_es_templates)
  have 2: "getMain ''/p'' ?b ''/p/src/index.js'' ''es'' = Own ''/p/dist/pkg.module.js''"
    unfolding es_template_choice [OF b(1,2), of "''/p''" "''/p/src/index.js''", simplified]
      example_es_templates
    by (simp add: example_es_templates)
  from 1 2 show ?thesis by simp
qed

text \<open>
  Claim C6 as stated fails without \<open>pkg-main\<close>: the manifest's \<open>module\<close> is
  \<open>dist/foo.module.js\<close>, which does not match \<open>src/\<close>, and the \<open>es\<close> output is
  \<open>options.output\<close>, not the path named after \<open>module\<close>.
\<close>

theorem es_template_without_pkg_main:
  "pkg_module (opt_pkg (options0\<lparr>opt_pkg := pkg0\<lparr>pkg_module := Some ''dist/foo.module.js''\<rparr>,
                                  opt_pkg_main := False\<rparr>)) = Some ''dist/foo.module.js''
   \<and> \<not> re_test re_src ''dist/foo.module.js''
   \<and> getMain ''/p'' (options0\<lparr>opt_pkg := pkg0\<lparr>pkg_module := Some ''dist/foo.module.js''\<rparr>,
                               opt_pkg_main := False\<rparr>) ''/p/src/index.js'' ''es''
       = Own ''/p/dist/pkg.js''
   \<and> replaceName ''/p'' ''dist/foo.module.js''
         (mainNoExtension ''/p'' (options0\<lparr>opt_pkg := pkg0\<lparr>pkg_module := Some ''dist/foo.module.js''\<rparr>,
                                           opt_pkg_main := False\<rparr>) ''/p/src/index.js'')
       = ''/p/dist/pkg.module.js''"
proof -
  have "getMain ''/p'' (options0\<lparr>opt_pkg := pkg0\<lparr>pkg_module := Some ''dist/foo.module.js''\<rparr>,
                               opt_pkg_main := False\<rparr>) ''/p/src/index.js'' ''es''
       = Own ''/p/dist/pkg.js''"
    by (simp add: getMain_def options0_def)
  then show ?thesis
    unfolding example_es_templates by simp
qed

section \<open>The shebang cache across modules\<close>

lemma in_ranges_only: "in_ranges c [only d] = (c = d)"
  by (auto simp: in_ranges_def only_def)

lemma star_class:
  "length s - i \<le> n \<Longrightarrow> i \<le> length s \<Longrightarrow>
     star_ends n (ends (NoneOf rs) s) i \<noteq> []
     \<and> hd (star_ends n (ends (NoneOf rs) s) i)
         = i + length (takeWhile (\<lambda>c. \<not> in_ranges c rs) (drop i s))"
proof (induction n arbitrary: i)
  case 0
  then show ?case by simp
next
  case (Suc n)
  show ?case
  proof (cases "i < length s \<and> \<not> in_ranges (s ! i) rs")
    case True
    then have d: "drop i s = s ! i # drop (Suc i) s"
      by (simp add: Cons_nth_drop_Suc)
    have "length s - Suc i \<le> n" "Suc i \<le> length s"
      using Suc.prems True by auto
    from Suc.IH [OF this] True show ?thesis
      by (simp add: d)
  next
    case False
    then have "takeWhile (\<lambda>c. \<not> in_ranges c rs) (drop i s) = []"
      by (cases "i < length s") (auto simp: Cons_nth_drop_Suc [symmetric])
    with False show ?thesis by auto
  qed
qed

lemma shebang_exec:
  "re_exec re_shebang (CHR ''#'' # CHR ''!'' # body)
     = Some (0, 2 + length (takeWhile (\<lambda>c. c \<noteq> CHR 0x0A) body))"
proof -
  let ?code = "CHR ''#'' # CHR ''!'' # body"
  let ?f = "ends (NoneOf [only CHR 0x0A]) ?code"
  have e: "ends re_shebang ?code 0 = star_ends (length body) ?f 2"
    by (simp add: re_shebang_def numeral_2_eq_2)
  have "star_ends (length body) ?f 2 \<noteq> []
        \<and> hd (star_ends (length body) ?f 2)
            = 2 + length (takeWhile (\<lambda>c. \<not> in_ranges c [only CHR 0x0A]) (drop 2 ?code))"
    by (rule star_class) simp_all
  then obtain x xs where "star_ends (length body) ?f 2 = x # xs"
    and "x = 2 + length (takeWhile (\<lambda>c. c \<noteq> CHR 0x0A) body)"
    by (cases "star_ends (length body) ?f 2") (auto simp: in_ranges_only)
  then show ?thesis
    by (simp add: re_exec_def e)
qed

lemma transform_shebang:
  "transform options (CHR ''#'' # CHR ''!'' # body) shebang =
     (''undefined'' @ dropWhile (\<lambda>c. c \<noteq> CHR 0x0A) body,
      set_property (opt_name options) (CHR ''#'' # CHR ''!'' # takeWhile (\<lambda>c. c \<noteq> CHR 0x0A) body)
        shebang)"
  by (simp add: transform_def shebang_exec dropWhile_eq_drop [symmetric] takeWhile_eq_take [symmetric])

lemma get_set_property:
  "k \<noteq> ''__proto__'' \<Longrightarrow> get_property (set_property k v obj) k = Own v"
  by (simp add: get_property_def set_property_def map_of_assign)

text \<open>
  The cache has one slot for a build. Whatever it held, after the hook has run on a module
  that begins with \<open>#!\<close> the banner is the first line of that module: of the modules of
  a bundle that begin with \<open>#!\<close>, the one that the hook gets last decides the banner of
  every output.
\<close>

lemma banner_of_last_module:
  assumes "opt_name options \<noteq> ''__proto__''"
  shows "banner options (snd (transform options (CHR ''#'' # CHR ''!'' # body) shebang))
           = Own (CHR ''#'' # CHR ''!'' # takeWhile (\<lambda>c. c \<noteq> CHR 0x0A) body)"
  using assms by (simp add: transform_shebang banner_def get_set_property)

lemma example_transforms:
  "transform options0 cli_source []
     = (''undefined'' @ [CHR 0x0A] @ ''require(`./tool`).run();'', [(''pkg'', directive)])"
  "transform options0 tool_source [(''pkg'', directive)]
     = (''undefined'' @ [CHR 0x0A] @ ''exports.run = main;'', [(''pkg'', ''#!/usr/bin/node'')])"
  by code_simp+

text \<open>
  Claim C4, at a build named \<open>pkg\<close> whose entry begins with the line
  \<open>#!/usr/bin/env node\<close> and imports a module that begins with the line
  \<open>#!/usr/bin/node\<close>. The hook of the input options gets the entry first: it puts the text
  \<open>undefined\<close> in the place of the directive, and the banner of the output options then is
  the directive. It gets the imported module next, and from then on the banner is the
  first line of that module, not the directive of the entry.
\<close>

theorem shebang_overwritten:
  "fst (ic_transform (getConfigInput env0 options0) cli_source [])
     = ''undefined'' @ [CHR 0x0A] @ ''require(`./tool`).run();''
   \<and> (case getConfigOutput ''/p'' options0 ''cjs'' True of
         Inr plan \<Rightarrow>
           oc_banner plan (snd (ic_transform (getConfigInput env0 options0) cli_source []))
       | Inl err \<Rightarrow> Undefined) = Own directive
   \<and> (case getConfigOutput ''/p'' options0 ''cjs'' True of
         Inr plan \<Rightarrow>
           oc_banner plan
             (snd (ic_transform (getConfigInput env0 options0) tool_source
                (snd (ic_transform (getConfigInput env0 options0) cli_source []))))
       | Inl err \<Rightarrow> Undefined) = Own ''#!/usr/bin/node''"
proof -
  have "opt_entries options0 \<noteq> [] \<or> \<not> opt_pkg_main options0"
    by (simp add: options0_def)
  moreover have "''cjs'' \<notin> set prototype_keys \<or> \<not> opt_pkg_main options0"
    by (simp add: prototype_keys_def)
  ultimately obtain plan where p: "getConfigOutput ''/p'' options0 ''cjs'' True = Inr plan"
    using getConfigOutput_returns by blast
  have b: "oc_banner plan = banner options0"
    by (rule getConfigOutput_plan(2) [OF p])
  have t: "ic_transform (getConfigInput env0 options0) = transform options0"
    by (simp add: getConfigInput_def Let_def)
  have g: "banner options0 [(''pkg'', v)] = Own v" for v
    by (simp add: banner_def get_property_def options0_def)
  show ?thesis
    unfolding p t b sum.case example_transforms fst_conv snd_conv g by simp
qed

end
